theory Spec2Isabelle
  imports Complex_Main "HOL-Library.Word" "HOL-Library.Signed_Division"
begin

section \<open>The linear motion core of fishfood: \<^verbatim>\<open>src/motion/linear_axis.c\<close>\<close>

text \<open>
  The embedding follows \<^verbatim>\<open>linear_axis.c\<close> function by function.

  \<^item> \<^verbatim>\<open>int32_t\<close> is \<open>32 word\<close>: \<open>+\<close> and \<open>-\<close> wrap around as the two's complement
    target does, and the signed readings are \<open>sint\<close>, \<open>\<le>s\<close> and \<open><s\<close>.
  \<^item> \<^verbatim>\<open>float\<close> is idealised as \<open>real\<close>: products, quotients and square roots are
    exact, there is no rounding to 24 bits, no infinity and no NaN, except that the
    square root of a negative number is kept as \<open>None\<close> (the NaN of \<^verbatim>\<open>sqrtf\<close>).
    Conversions from \<^verbatim>\<open>float\<close> to an integer type are written out: they round as the
    C function rounds and saturate at the bounds of the integer type.
  \<^item> The header \<^verbatim>\<open>linear_axis.h\<close>, the stepper driver, the clock and the GPIO block
    are not part of the sources at hand; the few operations used from them are
    modelled from the specification and marked as such.
\<close>

subsection \<open>Machine types\<close>

type_synonym int32 = "32 word"
type_synonym int8 = "8 word"
type_synonym uint16 = "16 word"
type_synonym uint32 = "32 word"
type_synonym absolute_time = int

text \<open>\<^verbatim>\<open>INT32_MIN\<close>, the one value whose negation is not representable.\<close>

definition INT32_MIN :: int32 where
  "INT32_MIN = word_of_int (- (2 ^ 31))"

text \<open>Conversion of an integer value to \<^verbatim>\<open>int32_t\<close>, saturating at both bounds.\<close>

definition sat_int32 :: "int \<Rightarrow> int32" where
  "sat_int32 i =
     (if i < - (2 ^ 31) then word_of_int (- (2 ^ 31))
      else if 2 ^ 31 - 1 < i then word_of_int (2 ^ 31 - 1)
      else word_of_int i)"

text \<open>\<^verbatim>\<open>ceilf\<close>: the least integral value not below the argument.\<close>

definition ceilf :: "real \<Rightarrow> real" where
  "ceilf x = of_int \<lceil>x\<rceil>"

text \<open>
  \<^verbatim>\<open>lroundf\<close>: the nearest integer, halfway cases away from zero, as a \<^verbatim>\<open>long\<close>
  (32 bits on the target, so the cast to \<^verbatim>\<open>int32_t\<close> that follows every call in the
  source changes nothing).
\<close>

definition round_half_away :: "real \<Rightarrow> int" where
  "round_half_away x = (if 0 \<le> x then \<lfloor>x + 1 / 2\<rfloor> else - \<lfloor>- x + 1 / 2\<rfloor>)"

definition lroundf :: "real \<Rightarrow> int32" where
  "lroundf x = sat_int32 (round_half_away x)"

text \<open>\<^verbatim>\<open>abs\<close> on \<^verbatim>\<open>int\<close>: the negation wraps, so \<^verbatim>\<open>abs(INT32_MIN)\<close> is \<^verbatim>\<open>INT32_MIN\<close>.\<close>

definition abs_int32 :: "int32 \<Rightarrow> int32" where
  "abs_int32 x = (if x <s 0 then - x else x)"

text \<open>
  Division of two \<^verbatim>\<open>int32_t\<close>: the quotient is truncated towards zero, as C
  prescribes (\<open>sdiv\<close> on \<open>int\<close>).
\<close>

definition div_int32 :: "int32 \<Rightarrow> int32 \<Rightarrow> int32" where
  "div_int32 a b = word_of_int (sint a sdiv sint b)"

text \<open>\<^verbatim>\<open>(float)\<close> of an \<^verbatim>\<open>int32_t\<close>.\<close>

definition float_of_int32 :: "int32 \<Rightarrow> real" where
  "float_of_int32 w = of_int (sint w)"

text \<open>\<^verbatim>\<open>(int64_t)\<close> of a \<^verbatim>\<open>float\<close>: truncation towards zero, saturating at the bounds
  of \<^verbatim>\<open>int64_t\<close>. The result is kept as the integer it denotes.\<close>

definition trunc_toward_zero :: "real \<Rightarrow> int" where
  "trunc_toward_zero x = (if 0 \<le> x then \<lfloor>x\<rfloor> else \<lceil>x\<rceil>)"

definition int64_of_float :: "real \<Rightarrow> int" where
  "int64_of_float x = max (- (2 ^ 63)) (min (2 ^ 63 - 1) (trunc_toward_zero x))"

text \<open>\<^verbatim>\<open>sqrtf\<close>: \<open>None\<close> stands for the NaN returned on a negative argument.\<close>

definition sqrtf :: "real \<Rightarrow> real option" where
  "sqrtf x = (if x < 0 then None else Some (sqrt x))"

text \<open>The comparison \<^verbatim>\<open>v > 0.0f\<close>, false on NaN.\<close>

definition float_gt_zero :: "real option \<Rightarrow> bool" where
  "float_gt_zero v = (case v of None \<Rightarrow> False | Some x \<Rightarrow> 0 < x)"

subsection \<open>Data model\<close>

text \<open>
  Modelled from the spec: the stepper driver (section 6 of the specification gives
  \<^verbatim>\<open>total_steps: i32\<close> and \<^verbatim>\<open>direction: i8\<close>). \<open>pulses\<close> counts the step
  pulses the driver has emitted, \<open>stallguard\<close> holds the sensitivity while stall
  detection is enabled, and \<open>polls\<close> counts the calls of \<^verbatim>\<open>stalled()\<close>.
\<close>

record Stepper =
  total_steps :: int32
  stepper_direction :: int8
  pulses :: nat
  stallguard :: "uint16 option"
  polls :: nat

text \<open>
  Modelled from the spec: the declaration of \<^verbatim>\<open>struct LinearAxisMovement\<close> is in
  \<^verbatim>\<open>linear_axis.h\<close>. The fields are those the source initialises at lines 179-186
  (section 3 of the specification lists the same six), each with the \<^verbatim>\<open>int32_t\<close> type
  of the local variable it is initialised from.
\<close>

record LinearAxisMovement =
  direction :: int32
  accel_step_count :: int32
  decel_step_count :: int32
  coast_step_count :: int32
  total_step_count :: int32
  steps_taken :: int32

text \<open>The zero plan \<^verbatim>\<open>(struct LinearAxisMovement){}\<close>.\<close>

definition zero_move :: LinearAxisMovement where
  "zero_move = \<lparr>direction = 0, accel_step_count = 0, decel_step_count = 0,
     coast_step_count = 0, total_step_count = 0, steps_taken = 0\<rparr>"

text \<open>
  Modelled from the spec: the declaration of \<^verbatim>\<open>struct LinearAxis\<close> is in
  \<^verbatim>\<open>linear_axis.h\<close>. The fields are those the source reads and writes, with the
  types of section 3 of the specification (\<^verbatim>\<open>float\<close> kinematics, a homing direction
  of \<open>-1\<close> or \<open>+1\<close>, a 16-bit sensitivity, a pin number). The two drivers are held
  by value, each owned by this axis alone; \<open>stepper2\<close> is \<open>None\<close> for the \<^verbatim>\<open>NULL\<close>
  pointer. The private fields lose their leading underscore, and \<open>step_interval\<close>
  holds the value of the \<^verbatim>\<open>int64_t\<close> assigned at line 305.
\<close>

record LinearAxis =
  name :: char
  stepper :: Stepper
  stepper2 :: "Stepper option"
  steps_per_mm :: real
  velocity_mm_s :: real
  acceleration_mm_s2 :: real
  homing_direction :: int8
  homing_distance_mm :: real
  homing_bounce_mm :: real
  homing_velocity_mm_s :: real
  homing_acceleration_mm_s2 :: real
  homing_sensitivity :: uint16
  endstop :: uint32
  current_move :: LinearAxisMovement
  step_interval :: int
  next_step_at :: absolute_time

subsection \<open>The profiler: \<^verbatim>\<open>LinearAxis_calculate_move\<close> (lines 145-187)\<close>

text \<open>Line 149: the destination in steps.\<close>

definition dest_steps :: "LinearAxis \<Rightarrow> real \<Rightarrow> int32" where
  "dest_steps m dest_mm = lroundf (ceilf (dest_mm * steps_per_mm m))"

text \<open>Line 150: the signed distance in steps.\<close>

definition delta_steps :: "LinearAxis \<Rightarrow> real \<Rightarrow> int32" where
  "delta_steps m dest_mm = dest_steps m dest_mm - total_steps (stepper m)"

text \<open>Lines 159-161: the length of the full ramp in steps.\<close>

definition ramp_step_count :: "LinearAxis \<Rightarrow> int32" where
  "ramp_step_count m =
     (let accel_time_s = velocity_mm_s m / acceleration_mm_s2 m;
          accel_distance_mm = 0.5 * accel_time_s * velocity_mm_s m
      in lroundf (accel_distance_mm * steps_per_mm m))"

definition LinearAxis_calculate_move :: "LinearAxis \<Rightarrow> real \<Rightarrow> LinearAxisMovement" where
  "LinearAxis_calculate_move m dest_mm =
     (let delta = delta_steps m dest_mm;
          dir = (if delta <s 0 then - 1 else 1);
          total_count = abs_int32 delta;
          accel = ramp_step_count m;
          decel = accel;
          coast = total_count - accel - decel
      in if coast \<le>s 0
         then \<lparr>direction = dir, accel_step_count = div_int32 total_count 2,
                decel_step_count = total_count - div_int32 total_count 2,
                coast_step_count = 0, total_step_count = total_count, steps_taken = 0\<rparr>
         else \<lparr>direction = dir, accel_step_count = accel,
                decel_step_count = decel,
                coast_step_count = coast, total_step_count = total_count, steps_taken = 0\<rparr>)"

subsection \<open>The outside world\<close>

text \<open>
  The clock, the stall flag of the driver and the endstop pin are inputs. An
  environment fixes what each read of the outside world returns; a machine state
  counts the reads made so far, so that the \<open>k\<close>-th read returns the \<open>k\<close>-th
  answer of the environment. The report sink is write-only and is left out.
\<close>

record Env =
  clock :: "nat \<Rightarrow> absolute_time"
  stall_flag :: "nat \<Rightarrow> bool"
  endstop_pin :: "nat \<Rightarrow> bool"

record Machine =
  axis :: LinearAxis
  reads :: nat

text \<open>
  Modelled from the spec: the clock contract of section 6 (\<^verbatim>\<open>now()\<close>,
  \<^verbatim>\<open>now + us\<close> and the signed difference in microseconds).
\<close>

definition get_absolute_time :: "Env \<Rightarrow> Machine \<Rightarrow> absolute_time \<times> Machine" where
  "get_absolute_time e s = (clock e (reads s), s\<lparr>reads := Suc (reads s)\<rparr>)"

definition absolute_time_diff_us :: "absolute_time \<Rightarrow> absolute_time \<Rightarrow> int" where
  "absolute_time_diff_us from_t to_t = to_t - from_t"

definition make_timeout_time_us :: "Env \<Rightarrow> Machine \<Rightarrow> int \<Rightarrow> absolute_time \<times> Machine" where
  "make_timeout_time_us e s us =
     (case get_absolute_time e s of (now, s1) \<Rightarrow> (now + us, s1))"

text \<open>
  Modelled from the spec: the driver operations of section 6. A step pulse advances
  \<open>total_steps\<close> by the latched direction (invariant 3 of section 3);
  \<^verbatim>\<open>step_two\<close> pulses both drivers in the same tick; \<^verbatim>\<open>stalled()\<close> reads the
  stall flag.
\<close>

definition Stepper_step :: "Stepper \<Rightarrow> Stepper" where
  "Stepper_step st =
     st\<lparr>total_steps := total_steps st + scast (stepper_direction st),
        pulses := Suc (pulses st)\<rparr>"

definition Stepper_step_two :: "Stepper \<Rightarrow> Stepper \<Rightarrow> Stepper \<times> Stepper" where
  "Stepper_step_two a b = (Stepper_step a, Stepper_step b)"

definition Stepper_enable_stallguard :: "Stepper \<Rightarrow> uint16 \<Rightarrow> Stepper" where
  "Stepper_enable_stallguard st sensitivity = st\<lparr>stallguard := Some sensitivity\<rparr>"

definition Stepper_disable_stallguard :: "Stepper \<Rightarrow> Stepper" where
  "Stepper_disable_stallguard st = st\<lparr>stallguard := None\<rparr>"

definition Stepper_stalled :: "Env \<Rightarrow> Machine \<Rightarrow> bool \<times> Machine" where
  "Stepper_stalled e s =
     (stall_flag e (reads s),
      s\<lparr>axis := (axis s)\<lparr>stepper := (stepper (axis s))\<lparr>polls := Suc (polls (stepper (axis s)))\<rparr>\<rparr>,
        reads := Suc (reads s)\<rparr>)"

text \<open>Modelled from the spec: \<^verbatim>\<open>gpio_get\<close> of the GPIO contract, on the endstop pin.\<close>

definition gpio_get :: "Env \<Rightarrow> Machine \<Rightarrow> bool \<times> Machine" where
  "gpio_get e s = (endstop_pin e (reads s), s\<lparr>reads := Suc (reads s)\<rparr>)"

text \<open>
  Modelled from the spec: the three inline operations of \<^verbatim>\<open>linear_axis.h\<close>.
  Section 4.2 has \<^verbatim>\<open>is_moving()\<close> true iff \<^verbatim>\<open>total_step_count > 0\<close> and
  \<^verbatim>\<open>stop()\<close> replacing the movement with the zero plan without changing the
  position; section 4.3.1 has the re-zeroing of the step counter.
\<close>

definition LinearAxis_is_moving :: "LinearAxis \<Rightarrow> bool" where
  "LinearAxis_is_moving m = (0 <s total_step_count (current_move m))"

definition LinearAxis_stop :: "LinearAxis \<Rightarrow> LinearAxis" where
  "LinearAxis_stop m = m\<lparr>current_move := zero_move\<rparr>"

definition LinearAxis_reset_position :: "LinearAxis \<Rightarrow> LinearAxis" where
  "LinearAxis_reset_position m = m\<lparr>stepper := (stepper m)\<lparr>total_steps := 0\<rparr>\<rparr>"

subsection \<open>The stepper loop (lines 189-306)\<close>

text \<open>
  \<^verbatim>\<open>LinearAxis_start_move\<close> (lines 189-207). The assignment to the driver's
  \<^verbatim>\<open>int8_t\<close> direction keeps the low eight bits. The report at the end has no effect
  on the state.
\<close>

definition latch_direction :: "int32 \<Rightarrow> Stepper \<Rightarrow> Stepper" where
  "latch_direction d st = st\<lparr>stepper_direction := ucast d\<rparr>"

definition LinearAxis_start_move :: "Env \<Rightarrow> Machine \<Rightarrow> LinearAxisMovement \<Rightarrow> Machine" where
  "LinearAxis_start_move e s move =
     (let m = axis s;
          m1 = m\<lparr>stepper := latch_direction (direction move) (stepper m)\<rparr>;
          m2 = (case stepper2 m1 of
                  None \<Rightarrow> m1
                | Some st2 \<Rightarrow> m1\<lparr>stepper2 := Some (latch_direction (direction move) st2)\<rparr>);
          m3 = m2\<lparr>current_move := move, step_interval := 100\<rparr>
      in case make_timeout_time_us e (s\<lparr>axis := m3\<rparr>) (step_interval m3) of
           (t, s1) \<Rightarrow> s1\<lparr>axis := (axis s1)\<lparr>next_step_at := t\<rparr>\<rparr>)"



text \<open>\<^verbatim>\<open>LinearAxis_direct_step\<close> (lines 241-259).\<close>

definition LinearAxis_direct_step :: "LinearAxis \<Rightarrow> LinearAxis" where
  "LinearAxis_direct_step m =
     (if total_step_count (current_move m) = 0 then m
      else
        let m1 = (case stepper2 m of
                    Some st2 \<Rightarrow>
                      (case Stepper_step_two (stepper m) st2 of
                         (a, b) \<Rightarrow> m\<lparr>stepper := a, stepper2 := Some b\<rparr>)
                  | None \<Rightarrow> m\<lparr>stepper := Stepper_step (stepper m)\<rparr>);
            m2 = m1\<lparr>current_move :=
                      (current_move m1)\<lparr>steps_taken := steps_taken (current_move m1) + 1\<rparr>\<rparr>
        in if steps_taken (current_move m2) = total_step_count (current_move m2)
           then m2\<lparr>current_move := zero_move\<rparr>
           else m2)"

text \<open>
  \<^verbatim>\<open>LinearAxis_calculate_step_interval\<close> (lines 274-306), in three parts: the
  instantaneous velocity (lines 277-292), the time per step (lines 295-301) and the
  conversion to microseconds with its cap (lines 303-305).
\<close>

definition inst_velocity :: "LinearAxis \<Rightarrow> real option" where
  "inst_velocity m =
     (let mv = current_move m;
          distance = float_of_int32 (steps_taken mv) * (1 / steps_per_mm m)
      in if steps_taken mv <s accel_step_count mv
         then sqrtf (2 * distance * acceleration_mm_s2 m)
         else if steps_taken mv <s accel_step_count mv + coast_step_count mv
         then Some (velocity_mm_s m)
         else
           let total_distance = float_of_int32 (total_step_count mv) * (1 / steps_per_mm m)
           in sqrtf (2 * (total_distance - distance) * acceleration_mm_s2 m))"

definition s_per_step :: "LinearAxis \<Rightarrow> real" where
  "s_per_step m =
     (if float_gt_zero (inst_velocity m)
      then let steps_per_s = the (inst_velocity m) / (1 / steps_per_mm m)
           in 1 / steps_per_s
      else 0.001)"

definition LinearAxis_calculate_step_interval :: "LinearAxis \<Rightarrow> LinearAxis" where
  "LinearAxis_calculate_step_interval m =
     (let step_time_us = int64_of_float (s_per_step m * 1000000);
          step_time_us = (if 5000 < step_time_us then 5000 else step_time_us)
      in m\<lparr>step_interval := step_time_us\<rparr>)"


text \<open>\<^verbatim>\<open>LinearAxis_timed_step\<close> (lines 261-272).\<close>

definition LinearAxis_timed_step :: "Env \<Rightarrow> Machine \<Rightarrow> bool \<times> Machine" where
  "LinearAxis_timed_step e s =
     (case get_absolute_time e s of
        (now, s1) \<Rightarrow>
          if 0 < absolute_time_diff_us now (next_step_at (axis s1)) then (False, s1)
          else
            let m1 = LinearAxis_direct_step (axis s1);
                m2 = LinearAxis_calculate_step_interval m1
            in case make_timeout_time_us e (s1\<lparr>axis := m2\<rparr>) (step_interval m2) of
                 (t, s2) \<Rightarrow> (True, s2\<lparr>axis := (axis s2)\<lparr>next_step_at := t\<rparr>\<rparr>))"

text \<open>A caller that polls \<^verbatim>\<open>LinearAxis_timed_step\<close> \<open>n\<close> times in a row.\<close>

fun timed_steps :: "Env \<Rightarrow> nat \<Rightarrow> Machine \<Rightarrow> Machine" where
  "timed_steps e 0 s = s"
| "timed_steps e (Suc n) s = timed_steps e n (snd (LinearAxis_timed_step e s))"

subsection \<open>Homing (lines 31-143)\<close>

text \<open>The product of the \<^verbatim>\<open>int8_t\<close> homing direction and a \<^verbatim>\<open>float\<close>.\<close>

definition float_of_int8 :: "int8 \<Rightarrow> real" where
  "float_of_int8 w = of_int (sint w)"

text \<open>
  One round of the loop of \<^verbatim>\<open>stallguard_seek\<close> (lines 38-48). \<open>ramp_complete\<close> is
  the test of line 41. The result is whether the loop breaks, the new value of
  \<^verbatim>\<open>check_for_stall\<close> and the new state; \<^verbatim>\<open>&&\<close> reads the stall flag only when
  \<^verbatim>\<open>check_for_stall\<close> is set.
\<close>

definition ramp_complete :: "LinearAxis \<Rightarrow> bool" where
  "ramp_complete m = (steps_taken (current_move m) = accel_step_count (current_move m))"

definition stallguard_seek_body :: "Env \<Rightarrow> bool \<Rightarrow> Machine \<Rightarrow> bool \<times> bool \<times> Machine" where
  "stallguard_seek_body e check_for_stall s =
     (case LinearAxis_timed_step e s of
        (stepped, s1) \<Rightarrow>
          let arm = ramp_complete (axis s1);
              s2 = (if arm
                    then s1\<lparr>axis := (axis s1)\<lparr>stepper :=
                           Stepper_enable_stallguard (stepper (axis s1))
                             (homing_sensitivity (axis s1))\<rparr>\<rparr>
                    else s1);
              check = (check_for_stall \<or> arm)
          in if check
             then (case Stepper_stalled e s2 of (stalled, s3) \<Rightarrow> (stalled, check, s3))
             else (False, check, s2))"

text \<open>The loop \<^verbatim>\<open>while (true)\<close> of lines 37-49; \<open>None\<close> when it never breaks.\<close>

partial_function (option) stallguard_seek_loop :: "Env \<Rightarrow> bool \<Rightarrow> Machine \<Rightarrow> Machine option" where
  "stallguard_seek_loop e check_for_stall s =
     (case stallguard_seek_body e check_for_stall s of
        (break, check, s1) \<Rightarrow>
          if break then Some s1 else stallguard_seek_loop e check s1)"

text \<open>The state in which the loop of \<^verbatim>\<open>stallguard_seek\<close> is entered (lines 32-36).\<close>

definition stallguard_seek_enter :: "Env \<Rightarrow> Machine \<Rightarrow> real \<Rightarrow> Machine" where
  "stallguard_seek_enter e s dist_mm =
     (let s1 = s\<lparr>axis := (axis s)\<lparr>stepper := Stepper_disable_stallguard (stepper (axis s))\<rparr>\<rparr>
      in LinearAxis_start_move e s1 (LinearAxis_calculate_move (axis s1) dist_mm))"

text \<open>Lines 51-53, shared with \<^verbatim>\<open>endstop_seek\<close> up to the last call.\<close>

definition stallguard_seek_leave :: "Machine \<Rightarrow> Machine" where
  "stallguard_seek_leave s =
     (let m = LinearAxis_reset_position (LinearAxis_stop (axis s))
      in s\<lparr>axis := m\<lparr>stepper := Stepper_disable_stallguard (stepper m)\<rparr>\<rparr>)"

definition stallguard_seek :: "Env \<Rightarrow> Machine \<Rightarrow> real \<Rightarrow> Machine option" where
  "stallguard_seek e s dist_mm =
     (case stallguard_seek_loop e False (stallguard_seek_enter e s dist_mm) of
        None \<Rightarrow> None
      | Some s1 \<Rightarrow> Some (stallguard_seek_leave s1))"

text \<open>
  The loop after at most \<open>n\<close> rounds: whether it has broken, \<^verbatim>\<open>check_for_stall\<close>
  and the state. It is the same loop, stopped from outside, and serves to state
  what holds during a seek that may never end.
\<close>

fun stallguard_seek_rounds :: "Env \<Rightarrow> nat \<Rightarrow> bool \<times> bool \<times> Machine \<Rightarrow> bool \<times> bool \<times> Machine" where
  "stallguard_seek_rounds e 0 x = x"
| "stallguard_seek_rounds e (Suc n) (break, check, s) =
     (if break then (break, check, s)
      else stallguard_seek_rounds e n (stallguard_seek_body e check s))"

text \<open>The loop \<^verbatim>\<open>while (LinearAxis_is_moving(m))\<close> of the bounce (lines 79 and 129).\<close>

partial_function (option) bounce_loop :: "Env \<Rightarrow> Machine \<Rightarrow> Machine option" where
  "bounce_loop e s =
     (if LinearAxis_is_moving (axis s)
      then bounce_loop e (snd (LinearAxis_timed_step e s))
      else Some s)"

text \<open>
  Lines 64-68 and, word for word, lines 114-118: the homing kinematics are
  substituted and the step counter is zeroed. The saved values stay in the caller.
\<close>

definition homing_setup :: "LinearAxis \<Rightarrow> LinearAxis" where
  "homing_setup m =
     m\<lparr>velocity_mm_s := homing_velocity_mm_s m,
       acceleration_mm_s2 := homing_acceleration_mm_s2 m,
       stepper := (stepper m)\<lparr>total_steps := 0\<rparr>\<rparr>"

text \<open>The bounce move of lines 77 and 127.\<close>

definition bounce_start :: "Env \<Rightarrow> Machine \<Rightarrow> Machine" where
  "bounce_start e s =
     LinearAxis_start_move e s
       (LinearAxis_calculate_move (axis s)
          (- (float_of_int8 (homing_direction (axis s)) * homing_bounce_mm (axis s))))"

text \<open>\<^verbatim>\<open>LinearAxis_sensorless_home\<close> (lines 56-93).\<close>

definition LinearAxis_sensorless_home :: "Env \<Rightarrow> Machine \<Rightarrow> Machine option" where
  "LinearAxis_sensorless_home e s =
     (let old_velocity = velocity_mm_s (axis s);
          old_acceleration = acceleration_mm_s2 (axis s);
          s0 = s\<lparr>axis := homing_setup (axis s)\<rparr>
      in case stallguard_seek e s0
                (float_of_int8 (homing_direction (axis s0)) * homing_distance_mm (axis s0)) of
           None \<Rightarrow> None
         | Some s1 \<Rightarrow>
             (case bounce_loop e (bounce_start e s1) of
                None \<Rightarrow> None
              | Some s2 \<Rightarrow>
                  (let m3 = (axis s2)\<lparr>velocity_mm_s := homing_velocity_mm_s (axis s2),
                              acceleration_mm_s2 := homing_acceleration_mm_s2 (axis s2)\<rparr>
                   in case stallguard_seek e (s2\<lparr>axis := m3\<rparr>)
                            (float_of_int8 (homing_direction m3) * homing_bounce_mm m3 * 2) of
                       None \<Rightarrow> None
                     | Some s4 \<Rightarrow>
                         Some (s4\<lparr>axis := (axis s4)\<lparr>velocity_mm_s := old_velocity,
                                       acceleration_mm_s2 := old_acceleration\<rparr>\<rparr>))))"

text \<open>\<^verbatim>\<open>endstop_seek\<close> (lines 95-102): the loop polls the pin before every tick.\<close>

partial_function (option) endstop_seek_loop :: "Env \<Rightarrow> Machine \<Rightarrow> Machine option" where
  "endstop_seek_loop e s =
     (case gpio_get e s of
        (pin, s1) \<Rightarrow>
          if pin then Some s1
          else endstop_seek_loop e (snd (LinearAxis_timed_step e s1)))"

definition endstop_seek :: "Env \<Rightarrow> Machine \<Rightarrow> real \<Rightarrow> Machine option" where
  "endstop_seek e s dist_mm =
     (case endstop_seek_loop e
             (LinearAxis_start_move e s (LinearAxis_calculate_move (axis s) dist_mm)) of
        None \<Rightarrow> None
      | Some s1 \<Rightarrow> Some (s1\<lparr>axis := LinearAxis_reset_position (LinearAxis_stop (axis s1))\<rparr>))"

text \<open>
  \<^verbatim>\<open>LinearAxis_endstop_home\<close> (lines 104-143). The configuration of the pin
  (lines 110-112) leaves the state alone.
\<close>

definition LinearAxis_endstop_home :: "Env \<Rightarrow> Machine \<Rightarrow> Machine option" where
  "LinearAxis_endstop_home e s =
     (let old_velocity = velocity_mm_s (axis s);
          old_acceleration = acceleration_mm_s2 (axis s);
          s0 = s\<lparr>axis := homing_setup (axis s)\<rparr>
      in case endstop_seek e s0
                (float_of_int8 (homing_direction (axis s0)) * homing_distance_mm (axis s0)) of
           None \<Rightarrow> None
         | Some s1 \<Rightarrow>
             (case bounce_loop e (bounce_start e s1) of
                None \<Rightarrow> None
              | Some s2 \<Rightarrow>
                  (let m3 = (axis s2)\<lparr>velocity_mm_s := homing_velocity_mm_s (axis s2) / 5,
                              acceleration_mm_s2 := homing_acceleration_mm_s2 (axis s2) / 2\<rparr>
                   in case endstop_seek e (s2\<lparr>axis := m3\<rparr>)
                            (float_of_int8 (homing_direction m3) * homing_bounce_mm m3 * 2) of
                       None \<Rightarrow> None
                     | Some s4 \<Rightarrow>
                         Some (s4\<lparr>axis := (axis s4)\<lparr>velocity_mm_s := old_velocity,
                                       acceleration_mm_s2 := old_acceleration\<rparr>\<rparr>))))"

subsection \<open>Concrete configurations\<close>

text \<open>
  The axis of the scenarios of section 8 of the specification: 80 steps per mm,
  100 mm/s, 1000 mm/s/s, at step 0, with a single driver.
\<close>

definition stepper_at :: "int32 \<Rightarrow> Stepper" where
  "stepper_at n = \<lparr>total_steps = n, stepper_direction = 1, pulses = 0,
     stallguard = None, polls = 0\<rparr>"

definition axis_x :: LinearAxis where
  "axis_x = \<lparr>name = CHR ''X'', stepper = stepper_at 0, stepper2 = None,
     steps_per_mm = 80, velocity_mm_s = 100, acceleration_mm_s2 = 1000,
     homing_direction = - 1, homing_distance_mm = 200, homing_bounce_mm = 5,
     homing_velocity_mm_s = 10, homing_acceleration_mm_s2 = 100,
     homing_sensitivity = 100, endstop = 0, current_move = zero_move,
     step_interval = 0, next_step_at = 0\<rparr>"

text \<open>An axis with one step per mm, on which every float operation of the profiler
  is exact.\<close>

definition axis_unit :: LinearAxis where
  "axis_unit = axis_x\<lparr>steps_per_mm := 1, velocity_mm_s := 128, acceleration_mm_s2 := 1024\<rparr>"

text \<open>An always-idle world in which every read of the clock is 10 ms after the last,
  the stall flag is never raised and the endstop never closes.\<close>

definition env_quiet :: Env where
  "env_quiet = \<lparr>clock = (\<lambda>k. 10000 * int k), stall_flag = (\<lambda>k. False),
     endstop_pin = (\<lambda>k. False)\<rparr>"

text \<open>An axis with one step per mm and an acceleration of 2 mm/s/s, on which the
  velocities of a two-step move are exact.\<close>

definition axis_slow :: LinearAxis where
  "axis_slow = axis_x\<lparr>steps_per_mm := 1, acceleration_mm_s2 := 2\<rparr>"

text \<open>The scenario axis at step 1000 with a slaved second driver.\<close>

definition axis_gantry :: LinearAxis where
  "axis_gantry = axis_x\<lparr>stepper := stepper_at 1000, stepper2 := Some (stepper_at 1000)\<rparr>"

text \<open>The one-step-per-mm axis standing at step 1.\<close>

definition axis_unit_at_1 :: LinearAxis where
  "axis_unit_at_1 = axis_unit\<lparr>stepper := stepper_at 1\<rparr>"


text \<open>
  A world in which the stall flag is raised and the endstop is closed at every read,
  and an axis that homes over a few steps at one step per mm: seek 3 mm, bounce
  1 mm, with a homing ramp of one step.
\<close>

definition env_trip :: Env where
  "env_trip = \<lparr>clock = (\<lambda>k. 10000 * int k), stall_flag = (\<lambda>k. True),
     endstop_pin = (\<lambda>k. True)\<rparr>"

definition axis_home :: LinearAxis where
  "axis_home = axis_x\<lparr>steps_per_mm := 1, homing_distance_mm := 3, homing_bounce_mm := 1,
     homing_velocity_mm_s := 2, homing_acceleration_mm_s2 := 2\<rparr>"

text \<open>The states of the homing axis along a homing run: the kinematics in force, the
  driver, the plan, the step interval, the time of the next step and the number of
  reads of the outside world.\<close>

definition home_stage ::
  "real \<Rightarrow> real \<Rightarrow> Stepper \<Rightarrow> LinearAxisMovement \<Rightarrow> int \<Rightarrow> int \<Rightarrow> nat \<Rightarrow> Machine" where
  "home_stage v a st mv interval next_at n =
     \<lparr>axis = axis_home\<lparr>velocity_mm_s := v, acceleration_mm_s2 := a, stepper := st,
                         current_move := mv, step_interval := interval,
                         next_step_at := next_at\<rparr>,
      reads = n\<rparr>"

text \<open>The plan of both seeks of that run: three steps backwards, one of them ramp.\<close>

definition home_seek_plan :: LinearAxisMovement where
  "home_seek_plan = \<lparr>direction = - 1, accel_step_count = 1, decel_step_count = 1,
     coast_step_count = 1, total_step_count = 3, steps_taken = 0\<rparr>"

subsection \<open>Predicates used in the statements\<close>

text \<open>The test of line 263, negated: the time of the next step has been reached.\<close>

definition step_due :: "Env \<Rightarrow> Machine \<Rightarrow> bool" where
  "step_due e s = (absolute_time_diff_us (clock e (reads s)) (next_step_at (axis s)) \<le> 0)"

text \<open>A clock that has advanced by at least 5 ms at every read: no tick finds the next
  step still ahead.\<close>

definition prompt_clock :: "Env \<Rightarrow> bool" where
  "prompt_clock e = (\<forall>k. clock e k + 5000 \<le> clock e (Suc k))"

text \<open>
  What ties a driver to the plan in flight: it has latched the direction \<open>d\<close> of the
  plan and, having started at \<open>ts0\<close>, stands \<open>d * steps_taken\<close> further while the
  plan of \<open>tot\<close> steps is in flight, and \<open>d * tot\<close> further once the axis is idle.
\<close>

definition stepper_travel :: "int32 \<Rightarrow> int32 \<Rightarrow> int32 \<Rightarrow> LinearAxisMovement \<Rightarrow> Stepper \<Rightarrow> bool" where
  "stepper_travel ts0 d tot cm st =
     (stepper_direction st = ucast d \<and>
      (if total_step_count cm = 0 then total_steps st = ts0 + d * tot
       else total_step_count cm = tot \<and> total_steps st = ts0 + d * steps_taken cm))"

text \<open>The four kinematic settings that the homing routines read or write.\<close>

definition kinematics :: "LinearAxis \<Rightarrow> real \<times> real \<times> real \<times> real" where
  "kinematics m = (velocity_mm_s m, acceleration_mm_s2 m,
     homing_velocity_mm_s m, homing_acceleration_mm_s2 m)"

text \<open>
  A plan in flight as the stepper loop keeps it: the total is at most \<open>2^31\<close> when
  read as unsigned (every plan of the profiler is, see \<open>abs_int32\<close>), the steps
  taken are non-negative and, unless the axis is idle, short of the total.
\<close>

definition plan_ok :: "LinearAxisMovement \<Rightarrow> bool" where
  "plan_ok mv =
     (uint (total_step_count mv) \<le> 2 ^ 31 \<and> 0 \<le>s steps_taken mv \<and>
      (total_step_count mv = 0 \<or> uint (steps_taken mv) < uint (total_step_count mv)))"

text \<open>
  What holds between the rounds of the loop of \<^verbatim>\<open>stallguard_seek\<close>, for a driver that
  had been polled \<open>p0\<close> times before: once \<^verbatim>\<open>check_for_stall\<close> is set the steps
  taken have reached \<open>accel_step_count\<close>; as long as it is not set, stall detection
  is off, the stall flag has not been read and the loop has not broken.
\<close>

definition seek_inv :: "nat \<Rightarrow> bool \<times> bool \<times> Machine \<Rightarrow> bool" where
  "seek_inv p0 x =
     (case x of (brk, chk, s) \<Rightarrow>
        plan_ok (current_move (axis s)) \<and>
        (if chk
         then accel_step_count (current_move (axis s)) \<le>s steps_taken (current_move (axis s))
         else stallguard (stepper (axis s)) = None \<and> polls (stepper (axis s)) = p0 \<and> \<not> brk))"

section \<open>Properties\<close>

subsection \<open>Signed readings of \<open>int32\<close> values\<close>

lemma sint_sat_int32: "sint (sat_int32 i) = max (- (2 ^ 31)) (min (2 ^ 31 - 1) i)"
  by (simp add: sat_int32_def sint_sbintrunc' signed_take_bit_int_eq_self)

lemma round_half_away_nonneg: "0 \<le> x \<Longrightarrow> 0 \<le> round_half_away x"
  by (simp add: round_half_away_def)

lemma lroundf_nonneg: "0 \<le> x \<Longrightarrow> 0 \<le>s lroundf x"
  using round_half_away_nonneg [of x]
  by (simp add: lroundf_def word_sle_eq sint_sat_int32)

lemma sint_range32: "- (2 ^ 31) \<le> sint (w :: int32) \<and> sint w < 2 ^ 31"
  using sint_ge [of w] sint_lt [of w] by simp

lemma sint_INT32_MIN: "sint INT32_MIN = - (2 ^ 31)"
  by (simp add: INT32_MIN_def)

lemma sint_not_min:
  assumes "x \<noteq> INT32_MIN" shows "sint x \<noteq> - (2 ^ 31)"
proof
  assume "sint x = - (2 ^ 31)"
  then have "sint x = sint INT32_MIN" by (simp add: sint_INT32_MIN)
  then have "x = INT32_MIN" by (rule signed_word_eqI)
  with assms show False by simp
qed

lemma abs_int32_nonneg:
  assumes "x \<noteq> INT32_MIN" shows "0 \<le>s abs_int32 x"
proof (cases "x <s 0")
  case True
  then have neg: "sint x < 0" by (simp add: word_sless_alt)
  have "sint (- x) = - sint x"
    using sint_range32 [of x] sint_not_min [OF assms]
    by (simp add: sint_word_minus signed_take_bit_int_eq_self)
  with neg True show ?thesis by (simp add: abs_int32_def word_sle_eq)
next
  case False
  then show ?thesis by (simp add: abs_int32_def word_sle_eq word_sless_alt)
qed

lemma sint_div_int32_two:
  assumes "0 \<le>s t" shows "sint (div_int32 t 2) = sint t div 2"
proof -
  have nn: "0 \<le> sint t" using assms by (simp add: word_sle_eq)
  then have "sint t sdiv 2 = sint t div 2"
    by (simp add: signed_divide_int_def sgn_if)
  moreover have "- (2 ^ 31) \<le> sint t div 2" "sint t div 2 < 2 ^ 31"
    using nn sint_range32 [of t] by auto
  ultimately show ?thesis
    by (simp add: div_int32_def sint_sbintrunc' signed_take_bit_int_eq_self)
qed

lemma half_split_nonneg:
  assumes "0 \<le>s t"
  shows "0 \<le>s div_int32 t 2" and "0 \<le>s t - div_int32 t 2"
proof -
  have nn: "0 \<le> sint t" using assms by (simp add: word_sle_eq)
  show "0 \<le>s div_int32 t 2"
    using nn by (simp add: word_sle_eq sint_div_int32_two [OF assms])
  have "sint (t - div_int32 t 2) = sint t - sint t div 2"
    using nn sint_range32 [of t]
    by (simp add: sint_word_diff sint_div_int32_two [OF assms] signed_take_bit_int_eq_self)
  then show "0 \<le>s t - div_int32 t 2"
    using nn by (simp add: word_sle_eq)
qed

lemma ramp_step_count_nonneg:
  assumes "0 < steps_per_mm m" "0 < velocity_mm_s m" "0 < acceleration_mm_s2 m"
  shows "0 \<le>s ramp_step_count m"
  unfolding ramp_step_count_def Let_def
  by (rule lroundf_nonneg) (use assms in simp)

subsection \<open>The profiler\<close>

lemma sint_abs_int32:
  assumes "x \<noteq> INT32_MIN" shows "sint (abs_int32 x) = \<bar>sint x\<bar>"
proof (cases "x <s 0")
  case True
  then have neg: "sint x < 0" by (simp add: word_sless_alt)
  have "sint (- x) = - sint x"
    using sint_range32 [of x] sint_not_min [OF assms]
    by (simp add: sint_word_minus signed_take_bit_int_eq_self)
  with neg True show ?thesis by (simp add: abs_int32_def)
next
  case False
  then show ?thesis by (simp add: abs_int32_def word_sless_alt)
qed

lemma sint_diff_exact:
  assumes "- (2 ^ 31) \<le> sint (a :: int32) - sint (b :: int32)" and "sint a - sint b < 2 ^ 31"
  shows "sint (a - b) = sint a - sint b"
  using assms by (simp add: sint_word_diff signed_take_bit_int_eq_self)

lemma sint_coast:
  assumes "0 \<le> sint (r :: int32)" and "0 \<le> sint (t :: int32)"
    and "2 * sint r \<le> sint t + 2 ^ 31"
  shows "sint (t - r - r) = sint t - 2 * sint r"
proof -
  have 1: "sint (t - r) = sint t - sint r"
    by (rule sint_diff_exact) (use assms sint_range32 [of t] sint_range32 [of r] in auto)
  have 2: "sint (t - r - r) = sint (t - r) - sint r"
    by (rule sint_diff_exact) (use assms sint_range32 [of t] sint_range32 [of r] 1 in auto)
  from 1 2 show ?thesis by linarith
qed

lemma sint_half_rest:
  assumes "0 \<le> sint (t :: int32)"
  shows "sint (t - div_int32 t 2) = sint t - sint t div 2"
proof -
  have le: "0 \<le>s t" using assms by (simp add: word_sle_eq)
  show ?thesis
    using assms sint_range32 [of t]
    by (simp add: sint_word_diff sint_div_int32_two [OF le] signed_take_bit_int_eq_self)
qed

text \<open>
  C1, as amended. Let \<open>r\<close> be the ramp length of line 161 and \<open>t\<close> the total of
  line 154, read as integers. If \<open>r\<close> is not negative (as it is for positive
  \<open>steps_per_mm\<close>, \<open>velocity_mm_s\<close> and \<open>acceleration_mm_s2\<close> whenever the
  conversion of line 161 is in range), the step distance \<open>delta_steps\<close> is not
  \<^verbatim>\<open>INT32_MIN\<close>, and the provisional coast count \<open>t - 2 * r\<close> does not fall below
  \<^verbatim>\<open>INT32_MIN\<close>, then the four counts of the plan are non-negative integers with
  \<open>accel + coast + decel = total\<close> and \<open>total = |delta_steps|\<close>; when
  \<open>t - 2 * r \<le> 0\<close> the plan is \<open>accel = t div 2\<close>, \<open>decel = t - accel\<close>,
  \<open>coast = 0\<close>, and otherwise \<open>accel = decel = r\<close> and \<open>coast = t - 2 * r\<close>.
  All sums and comparisons are those of the integers, not of \<^verbatim>\<open>int32_t\<close>.
\<close>

theorem calculate_move_step_counts:
  assumes r: "0 \<le> sint (ramp_step_count m)"
    and d: "delta_steps m dest_mm \<noteq> INT32_MIN"
    and c: "2 * sint (ramp_step_count m) \<le> sint (abs_int32 (delta_steps m dest_mm)) + 2 ^ 31"
  shows "(let mv = LinearAxis_calculate_move m dest_mm;
              t = sint (abs_int32 (delta_steps m dest_mm));
              r = sint (ramp_step_count m)
          in sint (accel_step_count mv) + sint (coast_step_count mv) + sint (decel_step_count mv)
               = sint (total_step_count mv)
           \<and> 0 \<le> sint (accel_step_count mv) \<and> 0 \<le> sint (coast_step_count mv)
           \<and> 0 \<le> sint (decel_step_count mv) \<and> 0 \<le> sint (total_step_count mv)
           \<and> sint (total_step_count mv) = \<bar>sint (delta_steps m dest_mm)\<bar>
           \<and> (if t - 2 * r \<le> 0
                then sint (accel_step_count mv) = t div 2
                   \<and> sint (decel_step_count mv) = t - t div 2
                   \<and> sint (coast_step_count mv) = 0
                else sint (accel_step_count mv) = r
                   \<and> sint (decel_step_count mv) = r
                   \<and> sint (coast_step_count mv) = t - 2 * r))"
proof -
  let ?t = "abs_int32 (delta_steps m dest_mm)"
  let ?r = "ramp_step_count m"
  have t: "sint ?t = \<bar>sint (delta_steps m dest_mm)\<bar>" using d by (rule sint_abs_int32)
  then have tn: "0 \<le> sint ?t" by simp
  have le: "0 \<le>s ?t" using tn by (simp add: word_sle_eq)
  have co: "sint (?t - ?r - ?r) = sint ?t - 2 * sint ?r"
    using r tn c by (rule sint_coast)
  have h1: "sint (div_int32 ?t 2) = sint ?t div 2" using le by (rule sint_div_int32_two)
  have h2: "sint (?t - div_int32 ?t 2) = sint ?t - sint ?t div 2" using tn by (rule sint_half_rest)
  have eq: "(?t - ?r - ?r \<le>s 0) = (sint ?t - 2 * sint ?r \<le> 0)"
    by (simp only: word_sle_eq co sint_0)
  show ?thesis
  proof (cases "?t - ?r - ?r \<le>s 0")
    case True
    have mv: "LinearAxis_calculate_move m dest_mm =
        \<lparr>direction = (if delta_steps m dest_mm <s 0 then - 1 else 1),
         accel_step_count = div_int32 ?t 2, decel_step_count = ?t - div_int32 ?t 2,
         coast_step_count = 0, total_step_count = ?t, steps_taken = 0\<rparr>"
      unfolding LinearAxis_calculate_move_def Let_def using True by (simp only: if_True)
    from True eq have "sint ?t - 2 * sint ?r \<le> 0" by blast
    moreover have "0 \<le> sint ?t div 2" "sint ?t div 2 \<le> sint ?t" using tn by simp_all
    ultimately show ?thesis using tn h1 h2 t
      by (simp add: mv Let_def)
  next
    case False
    have mv: "LinearAxis_calculate_move m dest_mm =
        \<lparr>direction = (if delta_steps m dest_mm <s 0 then - 1 else 1),
         accel_step_count = ?r, decel_step_count = ?r,
         coast_step_count = ?t - ?r - ?r, total_step_count = ?t, steps_taken = 0\<rparr>"
      unfolding LinearAxis_calculate_move_def Let_def using False by (simp only: if_False)
    from False eq have "\<not> sint ?t - 2 * sint ?r \<le> 0" by blast
    with tn r t show ?thesis
      by (simp only: mv Let_def LinearAxisMovement.simps co) simp
  qed
qed

text \<open>An odd total of 11 steps on the one-step-per-mm axis, whose ramp is 8 steps long,
  splits as 5 + 6.\<close>

theorem calculate_move_step_counts_witness:
  "0 \<le> sint (ramp_step_count axis_unit)
   \<and> delta_steps axis_unit 11 \<noteq> INT32_MIN
   \<and> 2 * sint (ramp_step_count axis_unit) \<le> sint (abs_int32 (delta_steps axis_unit 11)) + 2 ^ 31
   \<and> sint (total_step_count (LinearAxis_calculate_move axis_unit 11)) = 11
   \<and> sint (accel_step_count (LinearAxis_calculate_move axis_unit 11)) = 5
   \<and> sint (decel_step_count (LinearAxis_calculate_move axis_unit 11)) = 6
   \<and> sint (coast_step_count (LinearAxis_calculate_move axis_unit 11)) = 0"
proof -
  have d: "delta_steps axis_unit 11 = 11"
    by (simp add: delta_steps_def dest_steps_def axis_unit_def axis_x_def stepper_at_def ceilf_def
        lroundf_def round_half_away_def sat_int32_def)
  have r: "ramp_step_count axis_unit = 8"
    by (simp add: ramp_step_count_def axis_unit_def axis_x_def lroundf_def round_half_away_def
        sat_int32_def)
  have a: "abs_int32 11 = 11" by (simp add: abs_int32_def word_sless_alt)
  have h: "0 \<le> sint (ramp_step_count axis_unit)" "delta_steps axis_unit 11 \<noteq> INT32_MIN"
    "2 * sint (ramp_step_count axis_unit) \<le> sint (abs_int32 (delta_steps axis_unit 11)) + 2 ^ 31"
    by (simp_all add: d r a INT32_MIN_def)
  show ?thesis
    using calculate_move_step_counts [OF h] h
    by (simp add: Let_def d r a)
qed

text \<open>
  C1 as stated fails at the destination \<open>-2147483648\<close> mm of the one-step-per-mm
  axis at step 0: the step distance is \<^verbatim>\<open>INT32_MIN\<close>, \<^verbatim>\<open>abs\<close> returns it
  unchanged, and the total step count of the plan is negative.
\<close>

theorem calculate_move_negative_total_counterexample:
  "0 < steps_per_mm axis_unit \<and> 0 < velocity_mm_s axis_unit \<and> 0 < acceleration_mm_s2 axis_unit
   \<and> total_step_count (LinearAxis_calculate_move axis_unit (- 2147483648)) <s 0"
proof -
  have d: "delta_steps axis_unit (- 2147483648) = INT32_MIN"
    by (simp add: delta_steps_def dest_steps_def axis_unit_def axis_x_def stepper_at_def ceilf_def
        lroundf_def round_half_away_def sat_int32_def INT32_MIN_def)
  have a: "abs_int32 INT32_MIN = INT32_MIN"
    by (simp add: abs_int32_def INT32_MIN_def word_sless_alt)
  have "total_step_count (LinearAxis_calculate_move axis_unit (- 2147483648)) = INT32_MIN"
    by (simp add: LinearAxis_calculate_move_def Let_def d a)
  then show ?thesis
    by (simp add: axis_unit_def axis_x_def INT32_MIN_def word_sless_alt)
qed

subsection \<open>The stepper loop\<close>

lemma timed_step_axis:
  "axis (snd (LinearAxis_timed_step e s)) =
     (if step_due e s
      then (let m = LinearAxis_calculate_step_interval (LinearAxis_direct_step (axis s))
            in m\<lparr>next_step_at := clock e (Suc (reads s)) + step_interval m\<rparr>)
      else axis s)"
  by (simp add: LinearAxis_timed_step_def get_absolute_time_def make_timeout_time_us_def
      absolute_time_diff_us_def step_due_def Let_def not_less)

lemma timed_step_reads:
  "reads (snd (LinearAxis_timed_step e s)) = (if step_due e s then reads s + 2 else reads s + 1)"
  by (simp add: LinearAxis_timed_step_def get_absolute_time_def make_timeout_time_us_def
      absolute_time_diff_us_def step_due_def Let_def not_less)

lemma timed_step_fst: "fst (LinearAxis_timed_step e s) = step_due e s"
  by (simp add: LinearAxis_timed_step_def get_absolute_time_def make_timeout_time_us_def
      absolute_time_diff_us_def step_due_def Let_def not_less)

lemma ucast_minus_one_int8: "(ucast (- 1 :: int32) :: int8) = - 1"
  by (rule bit_word_eqI) (auto simp add: bit_simps)

lemma scast_latched:
  "d = 1 \<or> d = - 1 \<Longrightarrow> scast (ucast (d :: int32) :: int8) = d"
  by (auto simp add: ucast_minus_one_int8)

lemma calculate_step_interval_frame:
  "stepper (LinearAxis_calculate_step_interval m) = stepper m"
  "stepper2 (LinearAxis_calculate_step_interval m) = stepper2 m"
  "current_move (LinearAxis_calculate_step_interval m) = current_move m"
  by (simp_all add: LinearAxis_calculate_step_interval_def Let_def)

lemma Stepper_step_travel:
  assumes d: "d = 1 \<or> d = - 1"
    and inv: "stepper_travel ts0 d tot cm st" and nz: "total_step_count cm \<noteq> 0"
    and cm': "cm' = (if steps_taken cm + 1 = total_step_count cm then zero_move
                     else cm\<lparr>steps_taken := steps_taken cm + 1\<rparr>)"
  shows "stepper_travel ts0 d tot cm' (Stepper_step st)"
proof -
  from inv nz have dir: "stepper_direction st = ucast d" and tot: "total_step_count cm = tot"
    and ts: "total_steps st = ts0 + d * steps_taken cm"
    by (simp_all add: stepper_travel_def)
  have adv: "total_steps (Stepper_step st) = ts0 + d * (steps_taken cm + 1)"
    using scast_latched [OF d] by (simp add: Stepper_step_def dir ts algebra_simps)
  have keep: "stepper_direction (Stepper_step st) = ucast d"
    by (simp add: Stepper_step_def dir)
  show ?thesis
  proof (cases "steps_taken cm + 1 = total_step_count cm")
    case True
    then show ?thesis using adv keep tot cm'
      by (simp add: stepper_travel_def zero_move_def)
  next
    case False
    then show ?thesis using adv keep tot nz cm'
      by (simp add: stepper_travel_def)
  qed
qed

lemma direct_step_current_move:
  "current_move (LinearAxis_direct_step m) =
     (if total_step_count (current_move m) = 0 then current_move m
      else if steps_taken (current_move m) + 1 = total_step_count (current_move m) then zero_move
      else (current_move m)\<lparr>steps_taken := steps_taken (current_move m) + 1\<rparr>)"
  by (simp add: LinearAxis_direct_step_def Let_def Stepper_step_two_def split: option.split)

lemma direct_step_stepper:
  "stepper (LinearAxis_direct_step m) =
     (if total_step_count (current_move m) = 0 then stepper m else Stepper_step (stepper m))"
  by (simp add: LinearAxis_direct_step_def Let_def Stepper_step_two_def split: option.split)

lemma direct_step_stepper2:
  "stepper2 (LinearAxis_direct_step m) =
     (if total_step_count (current_move m) = 0 then stepper2 m
      else map_option Stepper_step (stepper2 m))"
  by (simp add: LinearAxis_direct_step_def Let_def Stepper_step_two_def split: option.split)

lemma direct_step_travel:
  assumes "d = 1 \<or> d = - 1" and "stepper_travel ts0 d tot (current_move m) (stepper m)"
  shows "stepper_travel ts0 d tot (current_move (LinearAxis_direct_step m))
           (stepper (LinearAxis_direct_step m))"
proof (cases "total_step_count (current_move m) = 0")
  case True
  with assms(2) show ?thesis
    by (simp add: direct_step_current_move direct_step_stepper)
next
  case False
  then show ?thesis
    using Stepper_step_travel [OF assms(1) assms(2) False refl]
    by (simp add: direct_step_current_move direct_step_stepper)
qed

lemma timed_step_travel:
  assumes "d = 1 \<or> d = - 1" and "stepper_travel ts0 d tot (current_move (axis s)) (stepper (axis s))"
  shows "stepper_travel ts0 d tot (current_move (axis (snd (LinearAxis_timed_step e s))))
           (stepper (axis (snd (LinearAxis_timed_step e s))))"
  using direct_step_travel [OF assms] assms(2)
  by (simp add: timed_step_axis Let_def calculate_step_interval_frame)

lemma timed_steps_travel:
  assumes "d = 1 \<or> d = - 1" and "stepper_travel ts0 d tot (current_move (axis s)) (stepper (axis s))"
  shows "stepper_travel ts0 d tot (current_move (axis (timed_steps e n s)))
           (stepper (axis (timed_steps e n s)))"
  using assms(2)
proof (induction n arbitrary: s)
  case 0
  then show ?case by simp
next
  case (Suc n)
  from timed_step_travel [OF assms(1) Suc.prems]
  show ?case by (simp add: Suc.IH)
qed

lemma start_move_axis:
  "axis (LinearAxis_start_move e s mv) =
     (axis s)\<lparr>stepper := latch_direction (direction mv) (stepper (axis s)),
              stepper2 := map_option (latch_direction (direction mv)) (stepper2 (axis s)),
              current_move := mv, step_interval := 100,
              next_step_at := clock e (reads s) + 100\<rparr>"
  by (simp add: LinearAxis_start_move_def Let_def make_timeout_time_us_def get_absolute_time_def
      split: option.split)

lemma start_move_travel:
  assumes "steps_taken mv = 0"
  shows "stepper_travel (total_steps (stepper (axis s))) (direction mv) (total_step_count mv)
           (current_move (axis (LinearAxis_start_move e s mv)))
           (stepper (axis (LinearAxis_start_move e s mv)))"
  using assms by (simp add: start_move_axis stepper_travel_def latch_direction_def)

text \<open>
  C2. A plan with \<open>steps_taken = 0\<close> and a direction of \<open>1\<close> or \<open>-1\<close> is
  installed by \<^verbatim>\<open>LinearAxis_start_move\<close> and \<^verbatim>\<open>LinearAxis_timed_step\<close> is called
  \<open>n\<close> times, under any clock. If the axis is then idle (the move has run to
  completion), the step counter of the driver has changed by exactly
  \<open>direction * total_step_count\<close>.
\<close>

theorem timed_step_net_travel:
  assumes "steps_taken mv = 0" and "direction mv = 1 \<or> direction mv = - 1"
    and "total_step_count (current_move (axis (timed_steps e n (LinearAxis_start_move e s mv)))) = 0"
  shows "total_steps (stepper (axis (timed_steps e n (LinearAxis_start_move e s mv))))
           - total_steps (stepper (axis s))
         = direction mv * total_step_count mv"
proof -
  let ?s = "timed_steps e n (LinearAxis_start_move e s mv)"
  have "stepper_travel (total_steps (stepper (axis s))) (direction mv) (total_step_count mv)
          (current_move (axis ?s)) (stepper (axis ?s))"
    by (rule timed_steps_travel [OF assms(2) start_move_travel [OF assms(1)]])
  with assms(3) show ?thesis
    by (simp add: stepper_travel_def)
qed

lemma two_step_move_eq:
  "LinearAxis_calculate_move axis_slow 2 =
     \<lparr>direction = 1, accel_step_count = 1, decel_step_count = 1, coast_step_count = 0,
      total_step_count = 2, steps_taken = 0\<rparr>"
  by (simp add: LinearAxis_calculate_move_def delta_steps_def dest_steps_def ramp_step_count_def
      axis_slow_def axis_x_def stepper_at_def ceilf_def lroundf_def round_half_away_def
      sat_int32_def abs_int32_def div_int32_def signed_divide_int_def Let_def
      word_sless_alt word_sle_eq)

lemma two_step_run:
  "timed_steps env_quiet 2
      (LinearAxis_start_move env_quiet \<lparr>axis = axis_slow, reads = 0\<rparr>
         (LinearAxis_calculate_move axis_slow 2)) =
   \<lparr>axis = axis_slow\<lparr>stepper := \<lparr>total_steps = 2, stepper_direction = 1, pulses = 2,
                                     stallguard = None, polls = 0\<rparr>,
                         current_move := zero_move, step_interval := 1000,
                         next_step_at := 41000\<rparr>,
     reads = 5\<rparr>"
  apply (simp add: two_step_move_eq numeral_2_eq_2)
  apply (simp add: LinearAxis_start_move_def LinearAxis_timed_step_def make_timeout_time_us_def
      get_absolute_time_def absolute_time_diff_us_def env_quiet_def axis_slow_def axis_x_def
      stepper_at_def Let_def latch_direction_def)
  apply (simp add: LinearAxis_direct_step_def Stepper_step_def Let_def
      LinearAxis_calculate_step_interval_def s_per_step_def inst_velocity_def float_gt_zero_def
      sqrtf_def float_of_int32_def word_sless_alt int64_of_float_def trunc_toward_zero_def
      zero_move_def)
  done

text \<open>A two-step move of the slow axis, polled twice at 10 ms intervals.\<close>

theorem timed_step_net_travel_witness:
  "steps_taken (LinearAxis_calculate_move axis_slow 2) = 0
   \<and> direction (LinearAxis_calculate_move axis_slow 2) = 1
   \<and> total_step_count (LinearAxis_calculate_move axis_slow 2) = 2
   \<and> total_step_count (current_move (axis (timed_steps env_quiet 2
         (LinearAxis_start_move env_quiet \<lparr>axis = axis_slow, reads = 0\<rparr>
            (LinearAxis_calculate_move axis_slow 2))))) = 0
   \<and> total_steps (stepper (axis (timed_steps env_quiet 2
         (LinearAxis_start_move env_quiet \<lparr>axis = axis_slow, reads = 0\<rparr>
            (LinearAxis_calculate_move axis_slow 2)))))
       - total_steps (stepper (axis \<lparr>axis = axis_slow, reads = 0\<rparr>)) = 1 * 2"
proof -
  have h1: "steps_taken (LinearAxis_calculate_move axis_slow 2) = 0"
    and h2: "direction (LinearAxis_calculate_move axis_slow 2) = 1
             \<or> direction (LinearAxis_calculate_move axis_slow 2) = - 1"
    by (simp_all add: two_step_move_eq)
  have h3: "total_step_count (current_move (axis (timed_steps env_quiet 2
         (LinearAxis_start_move env_quiet \<lparr>axis = axis_slow, reads = 0\<rparr>
            (LinearAxis_calculate_move axis_slow 2))))) = 0"
    by (simp add: two_step_run zero_move_def)
  show ?thesis
    using timed_step_net_travel [OF h1 h2 h3] h3
    by (simp add: two_step_move_eq)
qed

lemma direct_step_idle:
  "total_step_count (current_move m) = 0 \<Longrightarrow> LinearAxis_direct_step m = m"
  by (simp add: LinearAxis_direct_step_def)

lemma timed_step_idle:
  assumes "total_step_count (current_move (axis s)) = 0"
  shows "stepper (axis (snd (LinearAxis_timed_step e s))) = stepper (axis s)"
    and "stepper2 (axis (snd (LinearAxis_timed_step e s))) = stepper2 (axis s)"
    and "current_move (axis (snd (LinearAxis_timed_step e s))) = current_move (axis s)"
  using assms
  by (simp_all add: timed_step_axis Let_def calculate_step_interval_frame direct_step_idle)

lemma timed_steps_idle:
  assumes "total_step_count (current_move (axis s)) = 0"
  shows "stepper (axis (timed_steps e n s)) = stepper (axis s)
       \<and> stepper2 (axis (timed_steps e n s)) = stepper2 (axis s)
       \<and> current_move (axis (timed_steps e n s)) = current_move (axis s)"
  using assms
proof (induction n arbitrary: s)
  case 0
  then show ?case by simp
next
  case (Suc n)
  have "total_step_count (current_move (axis (snd (LinearAxis_timed_step e s)))) = 0"
    using Suc.prems by (simp add: timed_step_idle)
  from Suc.IH [OF this] show ?case
    using Suc.prems by (simp add: timed_step_idle)
qed

text \<open>
  C6. A plan with \<open>total_step_count = 0\<close> is a no-op. Right after
  \<^verbatim>\<open>LinearAxis_start_move\<close> the axis is not moving and \<^verbatim>\<open>LinearAxis_direct_step\<close>
  returns the axis as it was; after any number of calls of \<^verbatim>\<open>LinearAxis_timed_step\<close>
  the plan is untouched (so \<open>steps_taken\<close> keeps the value it was installed with,
  0 for every plan of the profiler), neither driver has been pulsed or moved, and
  the axis is still not moving.
\<close>

theorem zero_length_move_is_noop:
  assumes "total_step_count mv = 0"
  shows "\<not> LinearAxis_is_moving (axis (LinearAxis_start_move e s mv))
       \<and> LinearAxis_direct_step (axis (LinearAxis_start_move e s mv))
           = axis (LinearAxis_start_move e s mv)
       \<and> current_move (axis (timed_steps e n (LinearAxis_start_move e s mv))) = mv
       \<and> steps_taken (current_move (axis (timed_steps e n (LinearAxis_start_move e s mv))))
           = steps_taken mv
       \<and> total_steps (stepper (axis (timed_steps e n (LinearAxis_start_move e s mv))))
           = total_steps (stepper (axis s))
       \<and> pulses (stepper (axis (timed_steps e n (LinearAxis_start_move e s mv))))
           = pulses (stepper (axis s))
       \<and> map_option pulses (stepper2 (axis (timed_steps e n (LinearAxis_start_move e s mv))))
           = map_option pulses (stepper2 (axis s))
       \<and> map_option total_steps (stepper2 (axis (timed_steps e n (LinearAxis_start_move e s mv))))
           = map_option total_steps (stepper2 (axis s))
       \<and> \<not> LinearAxis_is_moving (axis (timed_steps e n (LinearAxis_start_move e s mv)))"
proof -
  let ?s1 = "LinearAxis_start_move e s mv"
  have cm: "current_move (axis ?s1) = mv" by (simp add: start_move_axis)
  with assms have idle: "total_step_count (current_move (axis ?s1)) = 0" by simp
  note run = timed_steps_idle [OF idle, of e n]
  have st: "total_steps (stepper (axis ?s1)) = total_steps (stepper (axis s))"
    "pulses (stepper (axis ?s1)) = pulses (stepper (axis s))"
    by (simp_all add: start_move_axis latch_direction_def)
  have st2: "map_option pulses (stepper2 (axis ?s1)) = map_option pulses (stepper2 (axis s))"
    "map_option total_steps (stepper2 (axis ?s1)) = map_option total_steps (stepper2 (axis s))"
    by (simp_all add: start_move_axis latch_direction_def option.map_comp comp_def)
  show ?thesis
    using run cm assms st st2 direct_step_idle [OF idle]
    by (simp add: LinearAxis_is_moving_def word_sless_alt)
qed

lemma zero_length_move_eq:
  "LinearAxis_calculate_move axis_x 0 = zero_move\<lparr>direction := 1\<rparr>"
  by (simp add: LinearAxis_calculate_move_def delta_steps_def dest_steps_def ramp_step_count_def
      axis_x_def stepper_at_def ceilf_def lroundf_def round_half_away_def
      sat_int32_def abs_int32_def div_int32_def signed_divide_int_def Let_def
      word_sless_alt word_sle_eq zero_move_def)

text \<open>Scenario 3 of the specification: \<^verbatim>\<open>calculate_move(0.0)\<close> from step 0.\<close>

theorem zero_length_move_is_noop_witness:
  "total_step_count (LinearAxis_calculate_move axis_x 0) = 0
   \<and> \<not> LinearAxis_is_moving (axis (LinearAxis_start_move env_quiet \<lparr>axis = axis_x, reads = 0\<rparr>
          (LinearAxis_calculate_move axis_x 0)))
   \<and> steps_taken (current_move (axis (timed_steps env_quiet 3
         (LinearAxis_start_move env_quiet \<lparr>axis = axis_x, reads = 0\<rparr>
            (LinearAxis_calculate_move axis_x 0))))) = 0
   \<and> total_steps (stepper (axis (timed_steps env_quiet 3
         (LinearAxis_start_move env_quiet \<lparr>axis = axis_x, reads = 0\<rparr>
            (LinearAxis_calculate_move axis_x 0))))) = 0
   \<and> pulses (stepper (axis (timed_steps env_quiet 3
         (LinearAxis_start_move env_quiet \<lparr>axis = axis_x, reads = 0\<rparr>
            (LinearAxis_calculate_move axis_x 0))))) = 0"
proof -
  have h: "total_step_count (LinearAxis_calculate_move axis_x 0) = 0"
    by (simp add: zero_length_move_eq zero_move_def)
  have i: "total_steps (stepper axis_x) = 0" "pulses (stepper axis_x) = 0"
    by (simp_all add: axis_x_def stepper_at_def)
  show ?thesis
    using zero_length_move_is_noop [OF h, of env_quiet "\<lparr>axis = axis_x, reads = 0\<rparr>" 3] h i
    by (simp add: zero_length_move_eq zero_move_def)
qed

lemma calculate_step_interval_zero_move:
  "current_move m = zero_move \<Longrightarrow> step_interval (LinearAxis_calculate_step_interval m) = 1000"
  by (simp add: LinearAxis_calculate_step_interval_def s_per_step_def inst_velocity_def
      float_gt_zero_def sqrtf_def float_of_int32_def word_sless_alt int64_of_float_def
      trunc_toward_zero_def zero_move_def Let_def)

text \<open>
  C10. Once the time of the next step has been reached, \<^verbatim>\<open>LinearAxis_timed_step\<close>
  returns true. On an idle axis (\<open>total_step_count = 0\<close>) it then pulses no driver
  and moves no step counter, and yet recomputes the interval and re-arms
  \<open>next_step_at\<close> with it; under the zero plan the interval is 1000 microseconds.
  So a true result does not tell that a pulse was emitted.
\<close>

theorem timed_step_true_without_pulse:
  assumes "step_due e s"
  shows "fst (LinearAxis_timed_step e s)
       \<and> (total_step_count (current_move (axis s)) = 0 \<longrightarrow>
            axis (snd (LinearAxis_timed_step e s))
              = (LinearAxis_calculate_step_interval (axis s))
                  \<lparr>next_step_at := clock e (Suc (reads s))
                      + step_interval (LinearAxis_calculate_step_interval (axis s))\<rparr>
            \<and> pulses (stepper (axis (snd (LinearAxis_timed_step e s)))) = pulses (stepper (axis s))
            \<and> map_option pulses (stepper2 (axis (snd (LinearAxis_timed_step e s))))
                = map_option pulses (stepper2 (axis s))
            \<and> total_steps (stepper (axis (snd (LinearAxis_timed_step e s))))
                = total_steps (stepper (axis s)))
       \<and> (current_move (axis s) = zero_move \<longrightarrow>
            step_interval (axis (snd (LinearAxis_timed_step e s))) = 1000
            \<and> next_step_at (axis (snd (LinearAxis_timed_step e s)))
                = clock e (Suc (reads s)) + 1000)"
proof -
  have a: "fst (LinearAxis_timed_step e s)"
    using assms by (simp add: timed_step_fst)
  have b: "axis (snd (LinearAxis_timed_step e s))
              = (LinearAxis_calculate_step_interval (axis s))
                  \<lparr>next_step_at := clock e (Suc (reads s))
                      + step_interval (LinearAxis_calculate_step_interval (axis s))\<rparr>"
    if "total_step_count (current_move (axis s)) = 0"
    using assms that by (simp add: timed_step_axis Let_def direct_step_idle)
  have c: "step_interval (axis (snd (LinearAxis_timed_step e s))) = 1000
            \<and> next_step_at (axis (snd (LinearAxis_timed_step e s)))
                = clock e (Suc (reads s)) + 1000"
    if z: "current_move (axis s) = zero_move"
  proof -
    from z have "total_step_count (current_move (axis s)) = 0" by (simp add: zero_move_def)
    from b [OF this] calculate_step_interval_zero_move [OF z] show ?thesis by simp
  qed
  show ?thesis
    using a b c by (simp add: calculate_step_interval_frame)
qed

text \<open>The idle scenario axis, polled at time 0.\<close>

theorem timed_step_true_without_pulse_witness:
  "step_due env_quiet \<lparr>axis = axis_x, reads = 0\<rparr>
   \<and> total_step_count (current_move (axis \<lparr>axis = axis_x, reads = 0\<rparr>)) = 0
   \<and> current_move (axis \<lparr>axis = axis_x, reads = 0\<rparr>) = zero_move
   \<and> fst (LinearAxis_timed_step env_quiet \<lparr>axis = axis_x, reads = 0\<rparr>)
   \<and> pulses (stepper (axis (snd (LinearAxis_timed_step env_quiet \<lparr>axis = axis_x, reads = 0\<rparr>)))) = 0
   \<and> step_interval (axis (snd (LinearAxis_timed_step env_quiet \<lparr>axis = axis_x, reads = 0\<rparr>))) = 1000
   \<and> next_step_at (axis (snd (LinearAxis_timed_step env_quiet \<lparr>axis = axis_x, reads = 0\<rparr>))) = 11000"
proof -
  have d: "step_due env_quiet \<lparr>axis = axis_x, reads = 0\<rparr>"
    by (simp add: step_due_def absolute_time_diff_us_def env_quiet_def axis_x_def)
  have z: "current_move (axis \<lparr>axis = axis_x, reads = 0\<rparr>) = zero_move"
    by (simp add: axis_x_def)
  have i: "pulses (stepper axis_x) = 0" "clock env_quiet (Suc 0) = 10000"
    by (simp_all add: axis_x_def stepper_at_def env_quiet_def)
  have z': "current_move axis_x = zero_move" by (simp add: axis_x_def)
  show ?thesis
    using timed_step_true_without_pulse [OF d] d z i
    by (simp add: zero_move_def calculate_step_interval_frame
        calculate_step_interval_zero_move [OF z'])
qed

text \<open>
  Moves do run to completion: under a clock that advances by 5 ms or more between
  reads every tick is due, and a started plan of \<open>n\<close> steps (\<open>n\<close> read as unsigned)
  has been replaced by the zero plan after \<open>n\<close> calls of \<^verbatim>\<open>LinearAxis_timed_step\<close>.
\<close>

lemma step_interval_at_most: "step_interval (LinearAxis_calculate_step_interval m) \<le> 5000"
  by (simp add: LinearAxis_calculate_step_interval_def Let_def)

lemma timed_step_stays_due:
  assumes "prompt_clock e" and "step_due e s"
  shows "step_due e (snd (LinearAxis_timed_step e s))"
proof -
  let ?m = "LinearAxis_calculate_step_interval (LinearAxis_direct_step (axis s))"
  have "clock e (Suc (reads s)) + 5000 \<le> clock e (Suc (Suc (reads s)))"
    using assms(1) by (simp add: prompt_clock_def)
  with step_interval_at_most [of "LinearAxis_direct_step (axis s)"] assms(2) show ?thesis
    by (simp add: step_due_def absolute_time_diff_us_def timed_step_axis timed_step_reads Let_def)
qed

lemma start_move_due:
  assumes "prompt_clock e"
  shows "step_due e (LinearAxis_start_move e s mv)"
proof -
  have r: "reads (LinearAxis_start_move e s mv) = Suc (reads s)"
    by (simp add: LinearAxis_start_move_def Let_def make_timeout_time_us_def
        get_absolute_time_def split: option.split)
  have "clock e (reads s) + 5000 \<le> clock e (Suc (reads s))"
    using assms by (simp add: prompt_clock_def)
  then show ?thesis
    by (simp add: step_due_def absolute_time_diff_us_def start_move_axis r)
qed

lemma due_tick_current_move:
  assumes "step_due e s"
  shows "current_move (axis (snd (LinearAxis_timed_step e s)))
           = current_move (LinearAxis_direct_step (axis s))"
  using assms by (simp add: timed_step_axis Let_def calculate_step_interval_frame)

lemma move_runs_to_completion:
  assumes "prompt_clock e"
  shows "step_due e s \<Longrightarrow> total_step_count (current_move (axis s)) \<noteq> 0 \<Longrightarrow>
         unat (total_step_count (current_move (axis s)) - steps_taken (current_move (axis s)) - 1) = k \<Longrightarrow>
         current_move (axis (timed_steps e (Suc k) s)) = zero_move"
proof (induction k arbitrary: s)
  case 0
  let ?mv = "current_move (axis s)"
  from "0.prems"(3) have "total_step_count ?mv - steps_taken ?mv - 1 = 0"
    by (simp add: unat_eq_0)
  then have "steps_taken ?mv + 1 = total_step_count ?mv"
    by (simp add: algebra_simps)
  with "0.prems"(1,2) show ?case
    by (simp add: due_tick_current_move direct_step_current_move)
next
  case (Suc k)
  let ?mv = "current_move (axis s)"
  let ?s' = "snd (LinearAxis_timed_step e s)"
  let ?w = "total_step_count ?mv - steps_taken ?mv - 1"
  from Suc.prems(3) have nz: "?w \<noteq> 0" by auto
  then have nf: "steps_taken ?mv + 1 \<noteq> total_step_count ?mv"
    by (auto simp add: algebra_simps)
  have cm: "current_move (axis ?s') = ?mv\<lparr>steps_taken := steps_taken ?mv + 1\<rparr>"
    using Suc.prems(1,2) nf by (simp add: due_tick_current_move direct_step_current_move)
  have due: "step_due e ?s'"
    using assms Suc.prems(1) by (rule timed_step_stays_due)
  have tot: "total_step_count (current_move (axis ?s')) \<noteq> 0"
    using Suc.prems(2) by (simp add: cm)
  have eq: "total_step_count (current_move (axis ?s')) - steps_taken (current_move (axis ?s')) - 1
          = ?w - 1"
    by (simp add: cm algebra_simps)
  have "unat (?w - 1) = unat ?w - 1" using nz by (rule unat_minus_one)
  also have "\<dots> = k" using Suc.prems(3) by simp
  finally have rem: "unat (total_step_count (current_move (axis ?s'))
                    - steps_taken (current_move (axis ?s')) - 1) = k"
    by (simp only: eq)
  from Suc.IH [OF due tot rem] show ?case by simp
qed

lemma started_move_completes:
  assumes "prompt_clock e" and "steps_taken mv = 0" and "total_step_count mv \<noteq> 0"
  shows "current_move (axis (timed_steps e (unat (total_step_count mv))
           (LinearAxis_start_move e s mv))) = zero_move"
proof -
  let ?s1 = "LinearAxis_start_move e s mv"
  have cm: "current_move (axis ?s1) = mv" by (simp add: start_move_axis)
  have "unat (total_step_count mv) \<noteq> 0"
    using assms(3) by (simp add: unat_eq_0)
  moreover have "unat (total_step_count mv - 1) = unat (total_step_count mv) - 1"
    using assms(3) by (rule unat_minus_one)
  ultimately have n: "unat (total_step_count mv) = Suc (unat (total_step_count mv - 1))"
    by arith
  have "current_move (axis (timed_steps e (Suc (unat (total_step_count mv - 1))) ?s1)) = zero_move"
    by (rule move_runs_to_completion [OF assms(1) start_move_due [OF assms(1)]])
      (simp_all add: cm assms)
  then show ?thesis by (simp only: n)
qed

subsection \<open>Direction and position\<close>

lemma round_half_away_of_int: "round_half_away (of_int c) = c"
proof -
  have "\<lfloor>real_of_int c + 1 / 2\<rfloor> = c" by linarith
  moreover have "\<lfloor>- real_of_int c + 1 / 2\<rfloor> = - c" by linarith
  ultimately show ?thesis by (simp add: round_half_away_def)
qed

lemma sint_dest_steps:
  "sint (dest_steps m dest_mm) = max (- (2 ^ 31)) (min (2 ^ 31 - 1) \<lceil>dest_mm * steps_per_mm m\<rceil>)"
  by (simp add: dest_steps_def lroundf_def ceilf_def round_half_away_of_int sint_sat_int32)

lemma calculate_move_direction_eq:
  "direction (LinearAxis_calculate_move m dest_mm) = (if delta_steps m dest_mm <s 0 then - 1 else 1)"
  by (simp add: LinearAxis_calculate_move_def Let_def)

lemma backward_delta_negative:
  assumes "dest_mm < 0" and "0 < steps_per_mm m" and "0 <s total_steps (stepper m)"
    and "- (2 ^ 31) \<le> sint (dest_steps m dest_mm) - sint (total_steps (stepper m))"
  shows "delta_steps m dest_mm <s 0"
proof -
  have "dest_mm * steps_per_mm m < 0"
    using assms(1,2) by (simp add: mult_less_0_iff)
  then have "\<lceil>dest_mm * steps_per_mm m\<rceil> \<le> 0" by linarith
  then have ds: "sint (dest_steps m dest_mm) \<le> 0"
    by (simp add: sint_dest_steps)
  have ts: "0 < sint (total_steps (stepper m))"
    using assms(3) by (simp add: word_sless_alt)
  have "sint (delta_steps m dest_mm)
          = sint (dest_steps m dest_mm) - sint (total_steps (stepper m))"
    unfolding delta_steps_def sint_word_diff
    using assms(4) ds ts by (simp add: signed_take_bit_int_eq_self)
  with ds ts show ?thesis by (simp add: word_sless_alt)
qed

text \<open>
  C7, as amended. The direction of every plan is \<open>-1\<close> when the step distance
  \<open>delta_steps\<close>, as computed in \<^verbatim>\<open>int32_t\<close>, is negative and \<open>+1\<close> otherwise, so
  it is always one of the two. On an axis with positive \<open>steps_per_mm\<close>, a
  negative \<open>dest_mm\<close> whose step position \<open>ceil (dest_mm * steps_per_mm)\<close> fits
  \<^verbatim>\<open>int32_t\<close> gives \<open>-1\<close> from a positive position, provided
  \<open>dest_steps - total_steps\<close> does not fall below \<^verbatim>\<open>INT32_MIN\<close>.
  \<^verbatim>\<open>LinearAxis_start_move\<close> latches the direction of the plan onto the primary
  driver and, when there is one, onto the secondary driver.
\<close>

theorem calculate_move_direction:
  "direction (LinearAxis_calculate_move m dest_mm)
      = (if delta_steps m dest_mm <s 0 then - 1 else 1)
   \<and> (direction (LinearAxis_calculate_move m dest_mm) = 1
        \<or> direction (LinearAxis_calculate_move m dest_mm) = - 1)
   \<and> (dest_mm < 0 \<and> 0 < steps_per_mm m \<and> - (2 ^ 31) \<le> \<lceil>dest_mm * steps_per_mm m\<rceil>
        \<and> 0 <s total_steps (stepper m)
        \<and> - (2 ^ 31) \<le> sint (dest_steps m dest_mm) - sint (total_steps (stepper m))
        \<longrightarrow> direction (LinearAxis_calculate_move m dest_mm) = - 1)
   \<and> stepper_direction (stepper (axis (LinearAxis_start_move e s mv))) = ucast (direction mv)
   \<and> map_option stepper_direction (stepper2 (axis (LinearAxis_start_move e s mv)))
        = map_option (\<lambda>st2. ucast (direction mv)) (stepper2 (axis s))
   \<and> (direction mv = - 1 \<longrightarrow>
         stepper_direction (stepper (axis (LinearAxis_start_move e s mv))) = - 1
         \<and> map_option stepper_direction (stepper2 (axis (LinearAxis_start_move e s mv)))
              = map_option (\<lambda>st2. - 1) (stepper2 (axis s)))"
  using backward_delta_negative [of dest_mm m]
  by (simp add: calculate_move_direction_eq start_move_axis latch_direction_def
      option.map_comp comp_def ucast_minus_one_int8)

lemma gantry_back: "delta_steps axis_gantry (- 1) = - 1080"
  by (simp add: delta_steps_def dest_steps_def axis_gantry_def axis_x_def stepper_at_def
      ceilf_def lroundf_def round_half_away_def sat_int32_def)

text \<open>The gantry at step 1000 sent to \<open>-1\<close> mm: both drivers latch \<open>-1\<close>.\<close>

theorem calculate_move_direction_witness:
  "(- 1 :: real) < 0 \<and> 0 < steps_per_mm axis_gantry
   \<and> - (2 ^ 31) \<le> \<lceil>- 1 * steps_per_mm axis_gantry\<rceil>
   \<and> 0 <s total_steps (stepper axis_gantry)
   \<and> - (2 ^ 31) \<le> sint (dest_steps axis_gantry (- 1)) - sint (total_steps (stepper axis_gantry))
   \<and> direction (LinearAxis_calculate_move axis_gantry (- 1)) = - 1
   \<and> stepper_direction (stepper (axis (LinearAxis_start_move env_quiet
         \<lparr>axis = axis_gantry, reads = 0\<rparr> (LinearAxis_calculate_move axis_gantry (- 1))))) = - 1
   \<and> map_option stepper_direction (stepper2 (axis (LinearAxis_start_move env_quiet
         \<lparr>axis = axis_gantry, reads = 0\<rparr> (LinearAxis_calculate_move axis_gantry (- 1)))))
        = Some (- 1)"
proof -
  have h: "0 < steps_per_mm axis_gantry" "0 <s total_steps (stepper axis_gantry)"
    "- (2 ^ 31) \<le> sint (dest_steps axis_gantry (- 1)) - sint (total_steps (stepper axis_gantry))"
    "stepper2 axis_gantry = Some (stepper_at 1000)"
    "- (2 ^ 31) \<le> \<lceil>- 1 * steps_per_mm axis_gantry\<rceil>"
    by (simp_all add: axis_gantry_def axis_x_def stepper_at_def word_sless_alt sint_dest_steps)
  have d: "direction (LinearAxis_calculate_move axis_gantry (- 1)) = - 1"
    using calculate_move_direction [of axis_gantry "- 1"] h
    by (simp add: gantry_back word_sless_alt)
  show ?thesis
    using calculate_move_direction [of axis_gantry "- 1" env_quiet
        "\<lparr>axis = axis_gantry, reads = 0\<rparr>" "LinearAxis_calculate_move axis_gantry (- 1)"] h d
    by (simp add: ucast_minus_one_int8)
qed

text \<open>
  C7 as stated fails for the one-step-per-mm axis at step 1 sent to
  \<open>-2147483648\<close> mm: \<open>dest_steps - total_steps\<close> wraps around to \<open>2147483647\<close>
  and the direction is \<open>+1\<close>.
\<close>

theorem calculate_move_direction_overflow_counterexample:
  "(- 2147483648 :: real) < 0 \<and> 0 < steps_per_mm axis_unit_at_1
   \<and> 0 <s total_steps (stepper axis_unit_at_1)
   \<and> direction (LinearAxis_calculate_move axis_unit_at_1 (- 2147483648)) = 1"
proof -
  have d: "delta_steps axis_unit_at_1 (- 2147483648) = 2147483647"
    by (simp add: delta_steps_def dest_steps_def axis_unit_at_1_def axis_unit_def axis_x_def
        stepper_at_def ceilf_def lroundf_def round_half_away_def sat_int32_def)
  show ?thesis
    by (simp add: calculate_move_direction_eq d word_sless_alt)
      (simp add: axis_unit_at_1_def axis_unit_def axis_x_def stepper_at_def)
qed





subsection \<open>The step interval\<close>

















subsection \<open>Homing\<close>

lemma seek_body_break:
  "stallguard_seek_body e c s = (True, c', s') \<Longrightarrow> \<exists>k. stall_flag e k"
  by (auto simp add: stallguard_seek_body_def Stepper_stalled_def Let_def
      split: prod.splits if_splits)

lemma stallguard_seek_loop_breaks_on_stall:
  assumes "stallguard_seek_loop e c s = Some s'"
  shows "\<exists>k. stall_flag e k"
proof (rule stallguard_seek_loop.raw_induct [where P = "\<lambda>e c s s'. \<exists>k. stall_flag e k", OF _ assms])
  fix loop e c s s'
  assume IH: "\<And>e c s s'. loop e c s = Some s' \<Longrightarrow> \<exists>k. stall_flag e k"
    and step: "(case stallguard_seek_body e c s of
                  (break, check, s1) \<Rightarrow> if break then Some s1 else loop e check s1) = Some s'"
  obtain brk c1 s1 where body: "stallguard_seek_body e c s = (brk, c1, s1)"
    by (cases "stallguard_seek_body e c s") auto
  show "\<exists>k. stall_flag e k"
  proof (cases brk)
    case True
    with body show ?thesis by (auto dest: seek_body_break)
  next
    case False
    with body step have "loop e c1 s1 = Some s'" by simp
    then show ?thesis by (rule IH)
  qed
qed

text \<open>
  C3, as amended. If the stall flag never becomes true, the loop of
  \<^verbatim>\<open>stallguard_seek\<close> never breaks, whatever the seek move does: neither
  \<^verbatim>\<open>stallguard_seek\<close> nor \<^verbatim>\<open>LinearAxis_sensorless_home\<close> returns, and the axis
  is never reported as homed.
\<close>

theorem stallguard_seek_never_returns:
  assumes "\<forall>k. \<not> stall_flag e k"
  shows "stallguard_seek e s dist_mm = None \<and> LinearAxis_sensorless_home e s = None"
proof -
  have loop: "stallguard_seek_loop e c s1 = None" for c s1
  proof (cases "stallguard_seek_loop e c s1")
    case None
    then show ?thesis .
  next
    case (Some s2)
    from stallguard_seek_loop_breaks_on_stall [OF this] assms show ?thesis by simp
  qed
  have seek: "stallguard_seek e s1 d = None" for s1 d
    by (simp add: stallguard_seek_def loop)
  show ?thesis
    by (simp add: seek LinearAxis_sensorless_home_def Let_def)
qed

text \<open>The scenario axis seeking 200 mm in the quiet world.\<close>

theorem stallguard_seek_never_returns_witness:
  "(\<forall>k. \<not> stall_flag env_quiet k)
   \<and> stallguard_seek env_quiet \<lparr>axis = axis_x, reads = 0\<rparr> (- 200) = None"
proof -
  have h: "\<forall>k. \<not> stall_flag env_quiet k" by (simp add: env_quiet_def)
  show ?thesis
    using stallguard_seek_never_returns [OF h, of "\<lparr>axis = axis_x, reads = 0\<rparr>" "- 200"] h
    by simp
qed

text \<open>
  C3 as stated fails in the quiet world, where the stall flag is never raised:
  \<^verbatim>\<open>LinearAxis_sensorless_home\<close> on the scenario axis does not return.
\<close>

theorem sensorless_home_hangs_counterexample:
  "LinearAxis_sensorless_home env_quiet \<lparr>axis = axis_x, reads = 0\<rparr> = None"
proof (cases "stallguard_seek_loop env_quiet False
    (stallguard_seek_enter env_quiet \<lparr>axis = homing_setup axis_x, reads = 0\<rparr>
       (float_of_int8 (homing_direction (homing_setup axis_x))
          * homing_distance_mm (homing_setup axis_x)))")
  case None
  then show ?thesis
    by (simp add: LinearAxis_sensorless_home_def Let_def stallguard_seek_def)
next
  case (Some s1)
  from stallguard_seek_loop_breaks_on_stall [OF this] show ?thesis
    by (simp add: env_quiet_def)
qed

lemma direct_step_kinematics: "kinematics (LinearAxis_direct_step m) = kinematics m"
  by (simp add: kinematics_def LinearAxis_direct_step_def Let_def Stepper_step_two_def
      split: option.split)

lemma timed_step_kinematics:
  "kinematics (axis (snd (LinearAxis_timed_step e s))) = kinematics (axis s)"
  using direct_step_kinematics [of "axis s"]
  by (simp add: timed_step_axis Let_def kinematics_def LinearAxis_calculate_step_interval_def)

lemma start_move_kinematics:
  "kinematics (axis (LinearAxis_start_move e s mv)) = kinematics (axis s)"
  by (simp add: start_move_axis kinematics_def)

lemma seek_body_kinematics:
  "stallguard_seek_body e c s = (brk, c', s') \<Longrightarrow> kinematics (axis s') = kinematics (axis s)"
  using timed_step_kinematics [of e s]
  by (auto simp add: stallguard_seek_body_def Let_def Stepper_stalled_def kinematics_def
      split: prod.splits if_splits)

lemma stallguard_seek_loop_kinematics:
  assumes "stallguard_seek_loop e c s = Some s'"
  shows "kinematics (axis s') = kinematics (axis s)"
proof (rule stallguard_seek_loop.raw_induct
    [where P = "\<lambda>e c s s'. kinematics (axis s') = kinematics (axis s)", OF _ assms])
  fix loop e c s s'
  assume IH: "\<And>e c s s'. loop e c s = Some s' \<Longrightarrow> kinematics (axis s') = kinematics (axis s)"
    and step: "(case stallguard_seek_body e c s of
                  (break, check, s1) \<Rightarrow> if break then Some s1 else loop e check s1) = Some s'"
  obtain brk c1 s1 where body: "stallguard_seek_body e c s = (brk, c1, s1)"
    by (cases "stallguard_seek_body e c s") auto
  note k = seek_body_kinematics [OF body]
  show "kinematics (axis s') = kinematics (axis s)"
  proof (cases brk)
    case True
    with body step k show ?thesis by simp
  next
    case False
    with body step have "loop e c1 s1 = Some s'" by simp
    from IH [OF this] k show ?thesis by simp
  qed
qed

lemma stallguard_seek_kinematics:
  assumes "stallguard_seek e s d = Some s'"
  shows "kinematics (axis s') = kinematics (axis s)"
proof -
  from assms obtain s1 where
    l: "stallguard_seek_loop e False (stallguard_seek_enter e s d) = Some s1"
    and s': "s' = stallguard_seek_leave s1"
    by (auto simp add: stallguard_seek_def split: option.splits)
  have "kinematics (axis (stallguard_seek_enter e s d)) = kinematics (axis s)"
    by (simp add: stallguard_seek_enter_def Let_def start_move_kinematics) (simp add: kinematics_def)
  moreover have "kinematics (axis (stallguard_seek_leave s1)) = kinematics (axis s1)"
    by (simp add: stallguard_seek_leave_def Let_def kinematics_def LinearAxis_stop_def
        LinearAxis_reset_position_def)
  ultimately show ?thesis
    using stallguard_seek_loop_kinematics [OF l] s' by simp
qed

lemma bounce_loop_kinematics:
  assumes "bounce_loop e s = Some s'"
  shows "kinematics (axis s') = kinematics (axis s)"
proof (rule bounce_loop.raw_induct
    [where P = "\<lambda>e s s'. kinematics (axis s') = kinematics (axis s)", OF _ assms])
  fix loop e s s'
  assume IH: "\<And>e s s'. loop e s = Some s' \<Longrightarrow> kinematics (axis s') = kinematics (axis s)"
    and step: "(if LinearAxis_is_moving (axis s) then loop e (snd (LinearAxis_timed_step e s))
                else Some s) = Some s'"
  show "kinematics (axis s') = kinematics (axis s)"
  proof (cases "LinearAxis_is_moving (axis s)")
    case True
    with step have "loop e (snd (LinearAxis_timed_step e s)) = Some s'" by simp
    from IH [OF this] show ?thesis by (simp add: timed_step_kinematics)
  next
    case False
    with step show ?thesis by simp
  qed
qed

lemma endstop_seek_loop_kinematics:
  assumes "endstop_seek_loop e s = Some s'"
  shows "kinematics (axis s') = kinematics (axis s)"
proof (rule endstop_seek_loop.raw_induct
    [where P = "\<lambda>e s s'. kinematics (axis s') = kinematics (axis s)", OF _ assms])
  fix loop e s s'
  assume IH: "\<And>e s s'. loop e s = Some s' \<Longrightarrow> kinematics (axis s') = kinematics (axis s)"
    and step: "(case gpio_get e s of
                  (pin, s1) \<Rightarrow> if pin then Some s1
                               else loop e (snd (LinearAxis_timed_step e s1))) = Some s'"
  show "kinematics (axis s') = kinematics (axis s)"
  proof (cases "endstop_pin e (reads s)")
    case True
    with step show ?thesis by (auto simp add: gpio_get_def)
  next
    case False
    with step have "loop e (snd (LinearAxis_timed_step e (s\<lparr>reads := Suc (reads s)\<rparr>))) = Some s'"
      by (simp add: gpio_get_def)
    from IH [OF this] show ?thesis by (simp add: timed_step_kinematics)
  qed
qed

lemma endstop_seek_kinematics:
  assumes "endstop_seek e s d = Some s'"
  shows "kinematics (axis s') = kinematics (axis s)"
proof -
  from assms obtain s1 where
    l: "endstop_seek_loop e (LinearAxis_start_move e s (LinearAxis_calculate_move (axis s) d)) = Some s1"
    and s': "s' = s1\<lparr>axis := LinearAxis_reset_position (LinearAxis_stop (axis s1))\<rparr>"
    by (auto simp add: endstop_seek_def split: option.splits)
  have "kinematics (axis s') = kinematics (axis s1)"
    by (simp add: s' kinematics_def LinearAxis_stop_def LinearAxis_reset_position_def)
  with endstop_seek_loop_kinematics [OF l] show ?thesis
    by (simp add: start_move_kinematics)
qed

lemma homing_setup_kinematics:
  "kinematics (homing_setup m)
     = (homing_velocity_mm_s m, homing_acceleration_mm_s2 m,
        homing_velocity_mm_s m, homing_acceleration_mm_s2 m)"
  "total_steps (stepper (homing_setup m)) = 0"
  by (simp_all add: homing_setup_def kinematics_def)

lemma sensorless_home_phases:
  assumes "LinearAxis_sensorless_home e s = Some s'"
  shows "kinematics (axis s') = kinematics (axis s)
       \<and> (\<exists>s1 s2. stallguard_seek e (s\<lparr>axis := homing_setup (axis s)\<rparr>)
                       (float_of_int8 (homing_direction (axis s)) * homing_distance_mm (axis s))
                     = Some s1
                 \<and> bounce_loop e (bounce_start e s1) = Some s2
                 \<and> kinematics (axis s1) = kinematics (homing_setup (axis s))
                 \<and> kinematics (axis s2) = kinematics (homing_setup (axis s)))"
proof -
  let ?s0 = "s\<lparr>axis := homing_setup (axis s)\<rparr>"
  have hd: "homing_direction (homing_setup (axis s)) = homing_direction (axis s)"
    "homing_distance_mm (homing_setup (axis s)) = homing_distance_mm (axis s)"
    by (simp_all add: homing_setup_def)
  from assms obtain s1 s2 s4 where
    p1: "stallguard_seek e ?s0
           (float_of_int8 (homing_direction (axis s)) * homing_distance_mm (axis s)) = Some s1"
    and p2: "bounce_loop e (bounce_start e s1) = Some s2"
    and p3: "stallguard_seek e
               (s2\<lparr>axis := (axis s2)\<lparr>velocity_mm_s := homing_velocity_mm_s (axis s2),
                                     acceleration_mm_s2 := homing_acceleration_mm_s2 (axis s2)\<rparr>\<rparr>)
               (float_of_int8 (homing_direction (axis s2)) * homing_bounce_mm (axis s2) * 2)
             = Some s4"
    and s': "s' = s4\<lparr>axis := (axis s4)\<lparr>velocity_mm_s := velocity_mm_s (axis s),
                                       acceleration_mm_s2 := acceleration_mm_s2 (axis s)\<rparr>\<rparr>"
    by (auto simp add: LinearAxis_sensorless_home_def Let_def hd split: option.splits)
  have k1: "kinematics (axis s1) = kinematics (homing_setup (axis s))"
    using stallguard_seek_kinematics [OF p1] by simp
  have k2: "kinematics (axis s2) = kinematics (homing_setup (axis s))"
    using bounce_loop_kinematics [OF p2] k1
    by (simp add: bounce_start_def start_move_kinematics)
  have k4: "kinematics (axis s4) = kinematics (homing_setup (axis s))"
    using stallguard_seek_kinematics [OF p3] k2
    by (simp add: kinematics_def homing_setup_def)
  have "kinematics (axis s') = kinematics (axis s)"
    using k4 by (simp add: s' kinematics_def homing_setup_def)
  with p1 p2 k1 k2 show ?thesis by blast
qed

lemma endstop_home_phases:
  assumes "LinearAxis_endstop_home e s = Some s'"
  shows "kinematics (axis s') = kinematics (axis s)
       \<and> (\<exists>s1 s2. endstop_seek e (s\<lparr>axis := homing_setup (axis s)\<rparr>)
                       (float_of_int8 (homing_direction (axis s)) * homing_distance_mm (axis s))
                     = Some s1
                 \<and> bounce_loop e (bounce_start e s1) = Some s2
                 \<and> kinematics (axis s1) = kinematics (homing_setup (axis s))
                 \<and> kinematics (axis s2) = kinematics (homing_setup (axis s)))"
proof -
  let ?s0 = "s\<lparr>axis := homing_setup (axis s)\<rparr>"
  have hd: "homing_direction (homing_setup (axis s)) = homing_direction (axis s)"
    "homing_distance_mm (homing_setup (axis s)) = homing_distance_mm (axis s)"
    by (simp_all add: homing_setup_def)
  from assms obtain s1 s2 s4 where
    p1: "endstop_seek e ?s0
           (float_of_int8 (homing_direction (axis s)) * homing_distance_mm (axis s)) = Some s1"
    and p2: "bounce_loop e (bounce_start e s1) = Some s2"
    and p3: "endstop_seek e
               (s2\<lparr>axis := (axis s2)\<lparr>velocity_mm_s := homing_velocity_mm_s (axis s2) / 5,
                                     acceleration_mm_s2 := homing_acceleration_mm_s2 (axis s2) / 2\<rparr>\<rparr>)
               (float_of_int8 (homing_direction (axis s2)) * homing_bounce_mm (axis s2) * 2)
             = Some s4"
    and s': "s' = s4\<lparr>axis := (axis s4)\<lparr>velocity_mm_s := velocity_mm_s (axis s),
                                       acceleration_mm_s2 := acceleration_mm_s2 (axis s)\<rparr>\<rparr>"
    by (auto simp add: LinearAxis_endstop_home_def Let_def hd split: option.splits)
  have k1: "kinematics (axis s1) = kinematics (homing_setup (axis s))"
    using endstop_seek_kinematics [OF p1] by simp
  have k2: "kinematics (axis s2) = kinematics (homing_setup (axis s))"
    using bounce_loop_kinematics [OF p2] k1
    by (simp add: bounce_start_def start_move_kinematics)
  have k4: "homing_velocity_mm_s (axis s4) = homing_velocity_mm_s (axis s)
          \<and> homing_acceleration_mm_s2 (axis s4) = homing_acceleration_mm_s2 (axis s)"
    using endstop_seek_kinematics [OF p3] k2
    by (simp add: kinematics_def homing_setup_def)
  have "kinematics (axis s') = kinematics (axis s)"
    using k4 by (simp add: s' kinematics_def)
  with p1 p2 k1 k2 show ?thesis by blast
qed

text \<open>
  C9. Both homing routines begin with \<open>homing_setup\<close>, which substitutes the homing
  velocity and acceleration and zeroes the step counter of the driver before the
  initial seek. When a routine returns, \<open>velocity_mm_s\<close> and
  \<open>acceleration_mm_s2\<close> have their values at entry again; the initial seek and the
  bounce have run, and have ended, under the homing kinematics.
\<close>

theorem homing_restores_kinematics:
  "kinematics (homing_setup m)
     = (homing_velocity_mm_s m, homing_acceleration_mm_s2 m,
        homing_velocity_mm_s m, homing_acceleration_mm_s2 m)
   \<and> total_steps (stepper (homing_setup m)) = 0
   \<and> (LinearAxis_sensorless_home e s = Some s' \<longrightarrow>
        velocity_mm_s (axis s') = velocity_mm_s (axis s)
        \<and> acceleration_mm_s2 (axis s') = acceleration_mm_s2 (axis s)
        \<and> (\<exists>s1 s2. stallguard_seek e (s\<lparr>axis := homing_setup (axis s)\<rparr>)
                       (float_of_int8 (homing_direction (axis s)) * homing_distance_mm (axis s))
                     = Some s1
                 \<and> bounce_loop e (bounce_start e s1) = Some s2
                 \<and> kinematics (axis s1) = kinematics (homing_setup (axis s))
                 \<and> kinematics (axis s2) = kinematics (homing_setup (axis s))))
   \<and> (LinearAxis_endstop_home e s = Some s'' \<longrightarrow>
        velocity_mm_s (axis s'') = velocity_mm_s (axis s)
        \<and> acceleration_mm_s2 (axis s'') = acceleration_mm_s2 (axis s)
        \<and> (\<exists>s1 s2. endstop_seek e (s\<lparr>axis := homing_setup (axis s)\<rparr>)
                       (float_of_int8 (homing_direction (axis s)) * homing_distance_mm (axis s))
                     = Some s1
                 \<and> bounce_loop e (bounce_start e s1) = Some s2
                 \<and> kinematics (axis s1) = kinematics (homing_setup (axis s))
                 \<and> kinematics (axis s2) = kinematics (homing_setup (axis s))))"
proof -
  have a: "velocity_mm_s (axis t) = velocity_mm_s (axis s)
           \<and> acceleration_mm_s2 (axis t) = acceleration_mm_s2 (axis s)"
    if "kinematics (axis t) = kinematics (axis s)" for t
    using that by (simp add: kinematics_def)
  show ?thesis
    using homing_setup_kinematics [of m] sensorless_home_phases [of e s s']
      endstop_home_phases [of e s s''] a
    by blast
qed

subsection \<open>Stall detection during the seek\<close>

lemma uint_range32: "0 \<le> uint (w :: int32) \<and> uint w < 2 ^ 32"
proof -
  have "uint w < 2 ^ LENGTH(32)" by (rule uint_lt2p)
  then show ?thesis by simp
qed

lemma sint_of_small:
  assumes "uint (w :: int32) < 2 ^ 31" shows "sint w = uint w"
proof -
  have "(- (2 ^ 31) :: int) \<le> 0" by simp
  also have "0 \<le> uint w" by simp
  finally have "- (2 ^ 31) \<le> uint w" .
  with assms have "signed_take_bit 31 (uint w) = uint w"
    by (rule signed_take_bit_int_eq_self [rotated])
  then show ?thesis by (simp add: sint_uint)
qed

lemma uint_of_nonneg:
  assumes "0 \<le>s (w :: int32)" shows "uint w = sint w" and "uint w < 2 ^ 31"
proof -
  have nn: "0 \<le> sint w" using assms by (simp add: word_sle_eq)
  have "uint w = take_bit 32 (sint w)" using uint_sint [of w] by simp
  also have "\<dots> = sint w"
    using nn sint_range32 [of w] by (simp add: take_bit_int_eq_self)
  finally show "uint w = sint w" .
  then show "uint w < 2 ^ 31" using sint_range32 [of w] by simp
qed

lemma uint_abs_int32: "uint (abs_int32 x) \<le> 2 ^ 31"
proof (cases "x <s 0")
  case True
  then have neg: "sint x < 0" by (simp add: word_sless_alt)
  have "- x = word_of_int (- sint x)" by simp
  then have "uint (- x) = take_bit 32 (- sint x)"
    by (simp only: uint_word_of_int_eq) simp
  also have "\<dots> = - sint x"
    using neg sint_range32 [of x] by (simp add: take_bit_int_eq_self)
  finally show ?thesis
    using True sint_range32 [of x] by (simp add: abs_int32_def)
next
  case False
  then have "0 \<le>s x" by (simp add: word_sless_alt word_sle_eq)
  from uint_of_nonneg(2) [OF this] False show ?thesis by (simp add: abs_int32_def)
qed

lemma uint_tick:
  assumes "uint (st :: int32) < uint (tot :: int32)"
  shows "uint (st + 1) = uint st + 1"
proof -
  have "uint tot < 2 ^ 32" using uint_range32 [of tot] by simp
  with assms have "uint st + uint (1 :: int32) < 2 ^ LENGTH(32)" by simp
  then have "uint (st + 1) = uint st + uint (1 :: int32)" by (simp only: uint_add_lem)
  then show ?thesis by simp
qed

lemma uint_tick_less:
  assumes "uint (st :: int32) < uint (tot :: int32)" and "st + 1 \<noteq> tot"
  shows "uint (st + 1) < uint tot"
proof -
  have "uint (st + 1) \<noteq> uint tot" using assms(2) by (simp add: word_uint_eq_iff)
  with uint_tick [OF assms(1)] assms(1) show ?thesis by simp
qed

lemma plan_ok_zero_move: "plan_ok zero_move"
  by (simp add: plan_ok_def zero_move_def word_sle_eq)

lemma plan_ok_calculate_move: "plan_ok (LinearAxis_calculate_move m dest_mm)"
proof -
  let ?t = "abs_int32 (delta_steps m dest_mm)"
  have t: "total_step_count (LinearAxis_calculate_move m dest_mm) = ?t"
    and s: "steps_taken (LinearAxis_calculate_move m dest_mm) = 0"
    by (simp_all add: LinearAxis_calculate_move_def Let_def)
  have "?t = 0 \<or> uint (0 :: int32) < uint ?t"
  proof (cases "?t = 0")
    case True
    then show ?thesis by simp
  next
    case False
    then have "uint ?t \<noteq> 0" by (simp add: uint_0_iff)
    moreover have "0 \<le> uint ?t" by simp
    ultimately have "0 < uint ?t" by linarith
    then show ?thesis by simp
  qed
  with uint_abs_int32 [of "delta_steps m dest_mm"] show ?thesis
    by (simp add: plan_ok_def t s word_sle_eq)
qed

lemma plan_ok_tick:
  assumes ok: "plan_ok mv" and nz: "total_step_count mv \<noteq> 0"
    and nf: "steps_taken mv + 1 \<noteq> total_step_count mv"
  shows "plan_ok (mv\<lparr>steps_taken := steps_taken mv + 1\<rparr>)"
    and "sint (steps_taken mv + 1) = sint (steps_taken mv) + 1"
proof -
  from ok nz have lt: "uint (steps_taken mv) < uint (total_step_count mv)"
    and tot: "uint (total_step_count mv) \<le> 2 ^ 31" and nn: "0 \<le>s steps_taken mv"
    by (simp_all add: plan_ok_def)
  have lt': "uint (steps_taken mv + 1) < uint (total_step_count mv)"
    using lt nf by (rule uint_tick_less)
  with tot have small: "uint (steps_taken mv + 1) < 2 ^ 31" by simp
  have s': "sint (steps_taken mv + 1) = uint (steps_taken mv) + 1"
    using sint_of_small [OF small] uint_tick [OF lt] by simp
  show "sint (steps_taken mv + 1) = sint (steps_taken mv) + 1"
    using s' uint_of_nonneg(1) [OF nn] by simp
  have "0 \<le>s steps_taken mv + 1"
    using s' uint_range32 [of "steps_taken mv"] by (simp add: word_sle_eq)
  with lt' tot show "plan_ok (mv\<lparr>steps_taken := steps_taken mv + 1\<rparr>)"
    by (simp add: plan_ok_def)
qed

lemma direct_step_plan:
  assumes "plan_ok (current_move m)"
  shows "plan_ok (current_move (LinearAxis_direct_step m))"
    and "accel_step_count (current_move m) \<le>s steps_taken (current_move m) \<Longrightarrow>
         accel_step_count (current_move (LinearAxis_direct_step m))
           \<le>s steps_taken (current_move (LinearAxis_direct_step m))"
proof -
  let ?mv = "current_move m"
  consider (idle) "total_step_count ?mv = 0"
    | (final) "total_step_count ?mv \<noteq> 0" "steps_taken ?mv + 1 = total_step_count ?mv"
    | (tick) "total_step_count ?mv \<noteq> 0" "steps_taken ?mv + 1 \<noteq> total_step_count ?mv"
    by blast
  then have "plan_ok (current_move (LinearAxis_direct_step m))
     \<and> (accel_step_count ?mv \<le>s steps_taken ?mv \<longrightarrow>
         accel_step_count (current_move (LinearAxis_direct_step m))
           \<le>s steps_taken (current_move (LinearAxis_direct_step m)))"
  proof cases
    case idle
    with assms show ?thesis by (simp add: direct_step_current_move)
  next
    case final
    then show ?thesis
      by (simp add: direct_step_current_move plan_ok_zero_move) (simp add: zero_move_def word_sle_eq)
  next
    case tick
    from plan_ok_tick [OF assms tick] tick show ?thesis
      by (simp add: direct_step_current_move word_sle_eq)
  qed
  then show "plan_ok (current_move (LinearAxis_direct_step m))"
    and "accel_step_count (current_move m) \<le>s steps_taken (current_move m) \<Longrightarrow>
         accel_step_count (current_move (LinearAxis_direct_step m))
           \<le>s steps_taken (current_move (LinearAxis_direct_step m))"
    by simp_all
qed

lemma timed_step_plan:
  assumes "plan_ok (current_move (axis s))"
  shows "plan_ok (current_move (axis (snd (LinearAxis_timed_step e s))))"
    and "accel_step_count (current_move (axis s)) \<le>s steps_taken (current_move (axis s)) \<Longrightarrow>
         accel_step_count (current_move (axis (snd (LinearAxis_timed_step e s))))
           \<le>s steps_taken (current_move (axis (snd (LinearAxis_timed_step e s))))"
  using direct_step_plan [OF assms] assms
  by (simp_all add: timed_step_axis Let_def calculate_step_interval_frame)

lemma direct_step_stall_state:
  "stallguard (stepper (LinearAxis_direct_step m)) = stallguard (stepper m)"
  "polls (stepper (LinearAxis_direct_step m)) = polls (stepper m)"
  by (simp_all add: direct_step_stepper Stepper_step_def)

lemma timed_step_stall_state:
  "stallguard (stepper (axis (snd (LinearAxis_timed_step e s)))) = stallguard (stepper (axis s))"
  "polls (stepper (axis (snd (LinearAxis_timed_step e s)))) = polls (stepper (axis s))"
  by (simp_all add: timed_step_axis Let_def calculate_step_interval_frame direct_step_stall_state)

lemma seek_body_unfold:
  "stallguard_seek_body e c s =
     (let s1 = snd (LinearAxis_timed_step e s);
          arm = ramp_complete (axis s1);
          s2 = (if arm
                then s1\<lparr>axis := (axis s1)\<lparr>stepper :=
                       Stepper_enable_stallguard (stepper (axis s1))
                         (homing_sensitivity (axis s1))\<rparr>\<rparr>
                else s1)
      in if c \<or> arm
         then (stall_flag e (reads s2), True, snd (Stepper_stalled e s2))
         else (False, False, s2))"
  by (simp add: stallguard_seek_body_def Let_def Stepper_stalled_def split: prod.split)

lemma seek_body_facts:
  "(case stallguard_seek_body e c s of
      (brk, c', s') \<Rightarrow>
        c' = (c \<or> ramp_complete (axis (snd (LinearAxis_timed_step e s))))
        \<and> stallguard (stepper (axis s'))
            = (if ramp_complete (axis (snd (LinearAxis_timed_step e s)))
               then Some (homing_sensitivity (axis (snd (LinearAxis_timed_step e s))))
               else stallguard (stepper (axis s)))
        \<and> polls (stepper (axis s'))
            = (if c' then Suc (polls (stepper (axis s))) else polls (stepper (axis s)))
        \<and> (brk \<longrightarrow> c' \<and> stall_flag e (reads (snd (LinearAxis_timed_step e s))))
        \<and> current_move (axis s') = current_move (axis (snd (LinearAxis_timed_step e s))))"
  by (simp add: seek_body_unfold Let_def Stepper_stalled_def Stepper_enable_stallguard_def
      timed_step_stall_state)

lemma seek_body_inv:
  assumes "seek_inv p0 (False, chk, s)"
  shows "seek_inv p0 (stallguard_seek_body e chk s)"
proof -
  let ?s1 = "snd (LinearAxis_timed_step e s)"
  from assms have ok: "plan_ok (current_move (axis s))" by (simp add: seek_inv_def)
  note p = timed_step_plan [OF ok, of e]
  show ?thesis
  proof (cases chk)
    case True
    with assms have "accel_step_count (current_move (axis s)) \<le>s steps_taken (current_move (axis s))"
      by (simp add: seek_inv_def)
    from p(2) [OF this] p(1) True show ?thesis
      by (simp add: seek_body_unfold Let_def seek_inv_def Stepper_stalled_def
          Stepper_enable_stallguard_def)
  next
    case False
    with assms have off: "stallguard (stepper (axis s)) = None" "polls (stepper (axis s)) = p0"
      by (simp_all add: seek_inv_def)
    show ?thesis
    proof (cases "ramp_complete (axis ?s1)")
      case True
      then have "accel_step_count (current_move (axis ?s1)) \<le>s steps_taken (current_move (axis ?s1))"
        by (simp add: ramp_complete_def)
      with p(1) True False show ?thesis
        by (simp add: seek_body_unfold Let_def seek_inv_def Stepper_stalled_def
            Stepper_enable_stallguard_def)
    next
      case nc: False
      with p(1) False off show ?thesis
        by (simp add: seek_body_unfold Let_def seek_inv_def timed_step_stall_state)
    qed
  qed
qed

lemma seek_rounds_inv:
  "seek_inv p0 x \<Longrightarrow> seek_inv p0 (stallguard_seek_rounds e n x)"
proof (induction n arbitrary: x)
  case 0
  then show ?case by simp
next
  case (Suc n)
  obtain brk chk s where x: "x = (brk, chk, s)" by (cases x) auto
  show ?case
  proof (cases brk)
    case True
    with Suc.prems x show ?thesis by simp
  next
    case False
    with Suc.prems x have "seek_inv p0 (stallguard_seek_body e chk s)"
      by (simp add: seek_body_inv)
    from Suc.IH [OF this] False x show ?thesis by simp
  qed
qed

lemma seek_enter_inv:
  "seek_inv (polls (stepper (axis s))) (False, False, stallguard_seek_enter e s dist_mm)"
  by (simp add: seek_inv_def stallguard_seek_enter_def Let_def start_move_axis
      plan_ok_calculate_move latch_direction_def Stepper_disable_stallguard_def)

text \<open>
  C5. At every point of the seek, after any number \<open>n\<close> of rounds of the loop of
  \<^verbatim>\<open>stallguard_seek\<close>: while \<open>steps_taken < accel_step_count\<close>, stall detection is
  off, the stall flag has not been read since the seek began, \<^verbatim>\<open>check_for_stall\<close>
  is unset and the loop has not broken. In every round, stall detection is enabled
  exactly when \<open>steps_taken = accel_step_count\<close> after the tick, the flag is read
  exactly when \<^verbatim>\<open>check_for_stall\<close> is then set, and the loop breaks only on a flag
  read as true.
\<close>

theorem stall_detection_waits_for_ramp:
  "(case stallguard_seek_rounds e n (False, False, stallguard_seek_enter e s dist_mm) of
      (brk, chk, sn) \<Rightarrow>
        (steps_taken (current_move (axis sn)) <s accel_step_count (current_move (axis sn)) \<longrightarrow>
           stallguard (stepper (axis sn)) = None
           \<and> polls (stepper (axis sn)) = polls (stepper (axis s))
           \<and> \<not> brk \<and> \<not> chk))
   \<and> (case stallguard_seek_body e c t of
        (brk, c', t') \<Rightarrow>
          c' = (c \<or> ramp_complete (axis (snd (LinearAxis_timed_step e t))))
          \<and> stallguard (stepper (axis t'))
              = (if ramp_complete (axis (snd (LinearAxis_timed_step e t)))
                 then Some (homing_sensitivity (axis (snd (LinearAxis_timed_step e t))))
                 else stallguard (stepper (axis t)))
          \<and> polls (stepper (axis t'))
              = (if c' then Suc (polls (stepper (axis t))) else polls (stepper (axis t)))
          \<and> (brk \<longrightarrow> c' \<and> stall_flag e (reads (snd (LinearAxis_timed_step e t))))
          \<and> current_move (axis t') = current_move (axis (snd (LinearAxis_timed_step e t))))"
proof -
  obtain brk chk sn where
    x: "stallguard_seek_rounds e n (False, False, stallguard_seek_enter e s dist_mm) = (brk, chk, sn)"
    by (cases "stallguard_seek_rounds e n (False, False, stallguard_seek_enter e s dist_mm)") auto
  have "seek_inv (polls (stepper (axis s)))
          (stallguard_seek_rounds e n (False, False, stallguard_seek_enter e s dist_mm))"
    by (rule seek_rounds_inv [OF seek_enter_inv])
  then have "seek_inv (polls (stepper (axis s))) (brk, chk, sn)"
    by (simp add: x)
  then have "steps_taken (current_move (axis sn)) <s accel_step_count (current_move (axis sn)) \<longrightarrow>
           stallguard (stepper (axis sn)) = None
           \<and> polls (stepper (axis sn)) = polls (stepper (axis s))
           \<and> \<not> brk \<and> \<not> chk"
    by (cases chk) (auto simp add: seek_inv_def word_sle_eq word_sless_alt)
  with x seek_body_facts [where e = e and c = c and s = t] show ?thesis by simp
qed

subsection \<open>A homing run, step by step\<close>

lemmas move_simps = LinearAxis_calculate_move_def delta_steps_def dest_steps_def
  ramp_step_count_def ceilf_def lroundf_def round_half_away_def sat_int32_def abs_int32_def
  div_int32_def signed_divide_int_def Let_def word_sless_alt word_sle_eq float_of_int8_def

lemmas start_simps = LinearAxis_start_move_def Let_def make_timeout_time_us_def
  get_absolute_time_def latch_direction_def ucast_minus_one_int8

lemmas tick_simps = LinearAxis_timed_step_def make_timeout_time_us_def get_absolute_time_def
  absolute_time_diff_us_def Let_def LinearAxis_direct_step_def Stepper_step_def
  LinearAxis_calculate_step_interval_def s_per_step_def inst_velocity_def float_gt_zero_def
  sqrtf_def float_of_int32_def word_sless_alt int64_of_float_def trunc_toward_zero_def
  zero_move_def

lemmas seek_simps = stallguard_seek_body_def ramp_complete_def Stepper_enable_stallguard_def
  Stepper_stalled_def

lemmas leave_simps = stallguard_seek_leave_def LinearAxis_stop_def
  LinearAxis_reset_position_def Let_def Stepper_disable_stallguard_def zero_move_def

lemma sensorless_home_run:
  assumes "stallguard_seek e (s\<lparr>axis := homing_setup (axis s)\<rparr>)
             (float_of_int8 (homing_direction (axis s)) * homing_distance_mm (axis s)) = Some s1"
    and "bounce_loop e (bounce_start e s1) = Some s2"
    and "stallguard_seek e
           (s2\<lparr>axis := (axis s2)\<lparr>velocity_mm_s := homing_velocity_mm_s (axis s2),
                                 acceleration_mm_s2 := homing_acceleration_mm_s2 (axis s2)\<rparr>\<rparr>)
           (float_of_int8 (homing_direction (axis s2)) * homing_bounce_mm (axis s2) * 2) = Some s4"
  shows "LinearAxis_sensorless_home e s
           = Some (s4\<lparr>axis := (axis s4)\<lparr>velocity_mm_s := velocity_mm_s (axis s),
                                       acceleration_mm_s2 := acceleration_mm_s2 (axis s)\<rparr>\<rparr>)"
proof -
  have "homing_direction (homing_setup (axis s)) = homing_direction (axis s)"
    "homing_distance_mm (homing_setup (axis s)) = homing_distance_mm (axis s)"
    by (simp_all add: homing_setup_def)
  with assms show ?thesis
    by (simp add: LinearAxis_sensorless_home_def Let_def)
qed

lemma endstop_home_run:
  assumes "endstop_seek e (s\<lparr>axis := homing_setup (axis s)\<rparr>)
             (float_of_int8 (homing_direction (axis s)) * homing_distance_mm (axis s)) = Some s1"
    and "bounce_loop e (bounce_start e s1) = Some s2"
    and "endstop_seek e
           (s2\<lparr>axis := (axis s2)\<lparr>velocity_mm_s := homing_velocity_mm_s (axis s2) / 5,
                                 acceleration_mm_s2 := homing_acceleration_mm_s2 (axis s2) / 2\<rparr>\<rparr>)
           (float_of_int8 (homing_direction (axis s2)) * homing_bounce_mm (axis s2) * 2) = Some s4"
  shows "LinearAxis_endstop_home e s
           = Some (s4\<lparr>axis := (axis s4)\<lparr>velocity_mm_s := velocity_mm_s (axis s),
                                       acceleration_mm_s2 := acceleration_mm_s2 (axis s)\<rparr>\<rparr>)"
proof -
  have "homing_direction (homing_setup (axis s)) = homing_direction (axis s)"
    "homing_distance_mm (homing_setup (axis s)) = homing_distance_mm (axis s)"
    by (simp_all add: homing_setup_def)
  with assms show ?thesis
    by (simp add: LinearAxis_endstop_home_def Let_def)
qed

lemma home_stage_expand:
  "home_stage v a st mv interval next_at n =
     \<lparr>axis = \<lparr>name = CHR ''X'', stepper = st, stepper2 = None, steps_per_mm = 1,
        velocity_mm_s = v, acceleration_mm_s2 = a, homing_direction = - 1,
        homing_distance_mm = 3, homing_bounce_mm = 1, homing_velocity_mm_s = 2,
        homing_acceleration_mm_s2 = 2, homing_sensitivity = 100, endstop = 0,
        current_move = mv, step_interval = interval, next_step_at = next_at\<rparr>,
      reads = n\<rparr>"
  by (simp add: home_stage_def axis_home_def axis_x_def)

lemma home_setup:
  "\<lparr>axis = homing_setup axis_home, reads = 0\<rparr>
     = home_stage 2 2 (stepper_at 0) zero_move 0 0 0"
  by (simp add: home_stage_def homing_setup_def axis_home_def axis_x_def stepper_at_def)

lemma home_seek_entered:
  "stallguard_seek_enter env_trip (home_stage 2 2 (stepper_at 0) zero_move 0 0 0) (- 3)
     = home_stage 2 2 \<lparr>total_steps = 0, stepper_direction = - 1, pulses = 0,
                       stallguard = None, polls = 0\<rparr> home_seek_plan 100 100 1"
  unfolding stallguard_seek_enter_def home_stage_expand home_seek_plan_def
  apply (simp add: Stepper_disable_stallguard_def stepper_at_def)
  apply (simp add: move_simps)
  apply (simp add: start_simps env_trip_def)
  done

lemma home_seek_round:
  "stallguard_seek_body env_trip False
      (home_stage 2 2 \<lparr>total_steps = 0, stepper_direction = - 1, pulses = 0,
                       stallguard = None, polls = 0\<rparr> home_seek_plan 100 100 1)
     = (True, True,
        home_stage 2 2 \<lparr>total_steps = - 1, stepper_direction = - 1, pulses = 1,
                         stallguard = Some 100, polls = 1\<rparr>
          (home_seek_plan\<lparr>steps_taken := 1\<rparr>) 5000 25000 4)"
  unfolding home_stage_expand home_seek_plan_def
  apply (simp add: tick_simps seek_simps env_trip_def)
  done

lemma home_seek1:
  "stallguard_seek env_trip (home_stage 2 2 (stepper_at 0) zero_move 0 0 0) (- 3)
     = Some (home_stage 2 2 \<lparr>total_steps = 0, stepper_direction = - 1, pulses = 1,
                              stallguard = None, polls = 1\<rparr> zero_move 5000 25000 4)"
  unfolding stallguard_seek_def home_seek_entered
  apply (subst stallguard_seek_loop.simps)
  apply (simp only: home_seek_round prod.case if_True option.case)
  apply (simp add: home_stage_expand home_seek_plan_def leave_simps)
  done

lemma home_bounce:
  "bounce_loop env_trip (bounce_start env_trip
      (home_stage 2 2 \<lparr>total_steps = 0, stepper_direction = - 1, pulses = 1,
                       stallguard = None, polls = 1\<rparr> zero_move 5000 25000 4))
     = Some (home_stage 2 2 \<lparr>total_steps = 1, stepper_direction = 1, pulses = 2,
                              stallguard = None, polls = 1\<rparr> zero_move 1000 61000 7)"
  unfolding bounce_start_def home_stage_expand
  apply (simp add: move_simps)
  apply (simp add: start_simps env_trip_def)
  apply (subst bounce_loop.simps)
  apply (simp add: LinearAxis_is_moving_def word_sless_alt)
  apply (simp add: tick_simps)
  apply (subst bounce_loop.simps)
  apply (simp add: LinearAxis_is_moving_def word_sless_alt zero_move_def)
  done

lemma home_seek2:
  "stallguard_seek env_trip
      (home_stage 2 2 \<lparr>total_steps = 1, stepper_direction = 1, pulses = 2,
                       stallguard = None, polls = 1\<rparr> zero_move 1000 61000 7) (- 2)
     = Some (home_stage 2 2 \<lparr>total_steps = 0, stepper_direction = - 1, pulses = 3,
                              stallguard = None, polls = 2\<rparr> zero_move 5000 95000 11)"
  unfolding stallguard_seek_def stallguard_seek_enter_def home_stage_expand
  apply (subst stallguard_seek_loop.simps)
  apply (simp add: Stepper_disable_stallguard_def)
  apply (simp add: move_simps)
  apply (simp add: start_simps env_trip_def)
  apply (simp add: tick_simps seek_simps)
  apply (simp add: leave_simps)
  done

lemma home_sensorless:
  "LinearAxis_sensorless_home env_trip \<lparr>axis = axis_home, reads = 0\<rparr>
     = Some (home_stage 100 1000 \<lparr>total_steps = 0, stepper_direction = - 1, pulses = 3,
                                   stallguard = None, polls = 2\<rparr> zero_move 5000 95000 11)"
proof -
  let ?s = "\<lparr>axis = axis_home, reads = 0\<rparr>"
  let ?s1 = "home_stage 2 2 \<lparr>total_steps = 0, stepper_direction = - 1, pulses = 1,
                              stallguard = None, polls = 1\<rparr> zero_move 5000 25000 4"
  let ?s2 = "home_stage 2 2 \<lparr>total_steps = 1, stepper_direction = 1, pulses = 2,
                              stallguard = None, polls = 1\<rparr> zero_move 1000 61000 7"
  let ?s4 = "home_stage 2 2 \<lparr>total_steps = 0, stepper_direction = - 1, pulses = 3,
                              stallguard = None, polls = 2\<rparr> zero_move 5000 95000 11"
  have a1: "?s\<lparr>axis := homing_setup (axis ?s)\<rparr> = home_stage 2 2 (stepper_at 0) zero_move 0 0 0"
    by (simp add: home_setup)
  have d1: "float_of_int8 (homing_direction (axis ?s)) * homing_distance_mm (axis ?s) = - 3"
    by (simp add: axis_home_def axis_x_def float_of_int8_def)
  have p1: "stallguard_seek env_trip (?s\<lparr>axis := homing_setup (axis ?s)\<rparr>)
              (float_of_int8 (homing_direction (axis ?s)) * homing_distance_mm (axis ?s)) = Some ?s1"
    by (simp only: a1 d1 home_seek1)
  have p2: "bounce_loop env_trip (bounce_start env_trip ?s1) = Some ?s2"
    by (rule home_bounce)
  have a3: "?s2\<lparr>axis := (axis ?s2)\<lparr>velocity_mm_s := homing_velocity_mm_s (axis ?s2),
                                    acceleration_mm_s2 := homing_acceleration_mm_s2 (axis ?s2)\<rparr>\<rparr>
              = ?s2"
    by (simp add: home_stage_def axis_home_def)
  have d3: "float_of_int8 (homing_direction (axis ?s2)) * homing_bounce_mm (axis ?s2) * 2 = - 2"
    by (simp add: home_stage_def axis_home_def axis_x_def float_of_int8_def)
  have p3: "stallguard_seek env_trip
              (?s2\<lparr>axis := (axis ?s2)\<lparr>velocity_mm_s := homing_velocity_mm_s (axis ?s2),
                                    acceleration_mm_s2 := homing_acceleration_mm_s2 (axis ?s2)\<rparr>\<rparr>)
              (float_of_int8 (homing_direction (axis ?s2)) * homing_bounce_mm (axis ?s2) * 2)
              = Some ?s4"
    by (simp only: a3 d3 home_seek2)
  have f: "?s4\<lparr>axis := (axis ?s4)\<lparr>velocity_mm_s := velocity_mm_s (axis ?s),
                                   acceleration_mm_s2 := acceleration_mm_s2 (axis ?s)\<rparr>\<rparr>
             = home_stage 100 1000 \<lparr>total_steps = 0, stepper_direction = - 1, pulses = 3,
                                     stallguard = None, polls = 2\<rparr> zero_move 5000 95000 11"
    by (simp add: home_stage_def axis_home_def axis_x_def)
  show ?thesis
    using sensorless_home_run [OF p1 p2 p3] by (simp only: f)
qed

lemma home_endstop_seek1:
  "endstop_seek env_trip (home_stage 2 2 (stepper_at 0) zero_move 0 0 0) (- 3)
     = Some (home_stage 2 2 \<lparr>total_steps = 0, stepper_direction = - 1, pulses = 0,
                              stallguard = None, polls = 0\<rparr> zero_move 100 100 2)"
  unfolding endstop_seek_def home_stage_expand
  apply (subst endstop_seek_loop.simps)
  apply (simp add: stepper_at_def)
  apply (simp add: move_simps)
  apply (simp add: start_simps gpio_get_def env_trip_def)
  apply (simp add: LinearAxis_stop_def LinearAxis_reset_position_def)
  done

lemma home_endstop_bounce:
  "bounce_loop env_trip (bounce_start env_trip
      (home_stage 2 2 \<lparr>total_steps = 0, stepper_direction = - 1, pulses = 0,
                              stallguard = None, polls = 0\<rparr> zero_move 100 100 2))
     = Some (home_stage 2 2 \<lparr>total_steps = 1, stepper_direction = 1, pulses = 1,
                              stallguard = None, polls = 0\<rparr> zero_move 1000 41000 5)"
  unfolding bounce_start_def home_stage_expand
  apply (simp add: move_simps)
  apply (simp add: start_simps env_trip_def)
  apply (subst bounce_loop.simps)
  apply (simp add: LinearAxis_is_moving_def word_sless_alt)
  apply (simp add: tick_simps)
  apply (subst bounce_loop.simps)
  apply (simp add: LinearAxis_is_moving_def word_sless_alt zero_move_def)
  done

lemma home_endstop_seek2:
  "endstop_seek env_trip
      (home_stage (2 / 5) 1 \<lparr>total_steps = 1, stepper_direction = 1, pulses = 1,
                              stallguard = None, polls = 0\<rparr> zero_move 1000 41000 5) (- 2)
     = Some (home_stage (2 / 5) 1 \<lparr>total_steps = 0, stepper_direction = - 1, pulses = 1,
                              stallguard = None, polls = 0\<rparr> zero_move 100 50100 7)"
  unfolding endstop_seek_def home_stage_expand
  apply (subst endstop_seek_loop.simps)
  apply (simp add: move_simps)
  apply (simp add: start_simps gpio_get_def env_trip_def)
  apply (simp add: LinearAxis_stop_def LinearAxis_reset_position_def)
  done

lemma home_endstop:
  "LinearAxis_endstop_home env_trip \<lparr>axis = axis_home, reads = 0\<rparr>
     = Some (home_stage 100 1000 \<lparr>total_steps = 0, stepper_direction = - 1, pulses = 1,
                                   stallguard = None, polls = 0\<rparr> zero_move 100 50100 7)"
proof -
  let ?s = "\<lparr>axis = axis_home, reads = 0\<rparr>"
  let ?s1 = "home_stage 2 2 \<lparr>total_steps = 0, stepper_direction = - 1, pulses = 0,
                              stallguard = None, polls = 0\<rparr> zero_move 100 100 2"
  let ?s2 = "home_stage 2 2 \<lparr>total_steps = 1, stepper_direction = 1, pulses = 1,
                              stallguard = None, polls = 0\<rparr> zero_move 1000 41000 5"
  let ?s3 = "home_stage (2 / 5) 1 \<lparr>total_steps = 1, stepper_direction = 1, pulses = 1,
                              stallguard = None, polls = 0\<rparr> zero_move 1000 41000 5"
  let ?s4 = "home_stage (2 / 5) 1 \<lparr>total_steps = 0, stepper_direction = - 1, pulses = 1,
                              stallguard = None, polls = 0\<rparr> zero_move 100 50100 7"
  have a1: "?s\<lparr>axis := homing_setup (axis ?s)\<rparr> = home_stage 2 2 (stepper_at 0) zero_move 0 0 0"
    by (simp add: home_setup)
  have d1: "float_of_int8 (homing_direction (axis ?s)) * homing_distance_mm (axis ?s) = - 3"
    by (simp add: axis_home_def axis_x_def float_of_int8_def)
  have p1: "endstop_seek env_trip (?s\<lparr>axis := homing_setup (axis ?s)\<rparr>)
              (float_of_int8 (homing_direction (axis ?s)) * homing_distance_mm (axis ?s)) = Some ?s1"
    by (simp only: a1 d1 home_endstop_seek1)
  have p2: "bounce_loop env_trip (bounce_start env_trip ?s1) = Some ?s2"
    by (rule home_endstop_bounce)
  have a3: "?s2\<lparr>axis := (axis ?s2)\<lparr>velocity_mm_s := homing_velocity_mm_s (axis ?s2) / 5,
                                    acceleration_mm_s2 := homing_acceleration_mm_s2 (axis ?s2) / 2\<rparr>\<rparr>
              = ?s3"
    by (simp add: home_stage_def axis_home_def)
  have d3: "float_of_int8 (homing_direction (axis ?s2)) * homing_bounce_mm (axis ?s2) * 2 = - 2"
    by (simp add: home_stage_def axis_home_def axis_x_def float_of_int8_def)
  have p3: "endstop_seek env_trip
              (?s2\<lparr>axis := (axis ?s2)\<lparr>velocity_mm_s := homing_velocity_mm_s (axis ?s2) / 5,
                                    acceleration_mm_s2 := homing_acceleration_mm_s2 (axis ?s2) / 2\<rparr>\<rparr>)
              (float_of_int8 (homing_direction (axis ?s2)) * homing_bounce_mm (axis ?s2) * 2)
              = Some ?s4"
    by (simp only: a3 d3 home_endstop_seek2)
  have f: "?s4\<lparr>axis := (axis ?s4)\<lparr>velocity_mm_s := velocity_mm_s (axis ?s),
                                   acceleration_mm_s2 := acceleration_mm_s2 (axis ?s)\<rparr>\<rparr>
             = home_stage 100 1000 \<lparr>total_steps = 0, stepper_direction = - 1, pulses = 1,
                                     stallguard = None, polls = 0\<rparr> zero_move 100 50100 7"
    by (simp add: home_stage_def axis_home_def axis_x_def)
  show ?thesis
    using endstop_home_run [OF p1 p2 p3] by (simp only: f)
qed

text \<open>
  The homing axis in the world where the flag is raised at once: before the first
  round one step of ramp is still to go and stall detection is off; the first round
  takes that step, arms and breaks on the flag.
\<close>

theorem stall_detection_waits_for_ramp_witness:
  "steps_taken (current_move (axis (stallguard_seek_enter env_trip
       (home_stage 2 2 (stepper_at 0) zero_move 0 0 0) (- 3))))
     <s accel_step_count (current_move (axis (stallguard_seek_enter env_trip
       (home_stage 2 2 (stepper_at 0) zero_move 0 0 0) (- 3))))
   \<and> stallguard (stepper (axis (stallguard_seek_enter env_trip
       (home_stage 2 2 (stepper_at 0) zero_move 0 0 0) (- 3)))) = None
   \<and> polls (stepper (axis (stallguard_seek_enter env_trip
       (home_stage 2 2 (stepper_at 0) zero_move 0 0 0) (- 3)))) = 0
   \<and> fst (stallguard_seek_body env_trip False (stallguard_seek_enter env_trip
       (home_stage 2 2 (stepper_at 0) zero_move 0 0 0) (- 3)))
   \<and> ramp_complete (axis (snd (LinearAxis_timed_step env_trip (stallguard_seek_enter env_trip
       (home_stage 2 2 (stepper_at 0) zero_move 0 0 0) (- 3)))))
   \<and> stall_flag env_trip (reads (snd (LinearAxis_timed_step env_trip (stallguard_seek_enter
       env_trip (home_stage 2 2 (stepper_at 0) zero_move 0 0 0) (- 3)))))"
proof -
  let ?s = "home_stage 2 2 (stepper_at 0) zero_move 0 0 0"
  let ?t = "stallguard_seek_enter env_trip ?s (- 3)"
  have ramp: "steps_taken (current_move (axis ?t)) <s accel_step_count (current_move (axis ?t))"
    by (simp add: home_seek_entered) (simp add: home_stage_def home_seek_plan_def word_sless_alt)
  have p0: "polls (stepper (axis ?s)) = 0"
    by (simp add: home_stage_def stepper_at_def)
  have brk: "stallguard_seek_body env_trip False ?t
               = (True, True,
                  home_stage 2 2 \<lparr>total_steps = - 1, stepper_direction = - 1, pulses = 1,
                                   stallguard = Some 100, polls = 1\<rparr>
                    (home_seek_plan\<lparr>steps_taken := 1\<rparr>) 5000 25000 4)"
    by (simp only: home_seek_entered home_seek_round)
  note t = stall_detection_waits_for_ramp [where e = env_trip and n = 0 and s = ?s
      and dist_mm = "- 3" and c = False and t = ?t]
  from t ramp p0 have before: "stallguard (stepper (axis ?t)) = None"
    "polls (stepper (axis ?t)) = 0"
    by simp_all
  note round = t [THEN conjunct2, unfolded brk, simplified]
  from round have after: "ramp_complete (axis (snd (LinearAxis_timed_step env_trip ?t)))"
    "stall_flag env_trip (reads (snd (LinearAxis_timed_step env_trip ?t)))"
    by simp_all
  show ?thesis
    using ramp before after by (simp add: brk)
qed

text \<open>Both routines on the homing axis, in the world where flag and endstop trip at
  once: they return with 100 mm/s and 1000 mm/s/s in place again.\<close>

theorem homing_restores_kinematics_witness:
  "LinearAxis_sensorless_home env_trip \<lparr>axis = axis_home, reads = 0\<rparr>
     = Some (home_stage 100 1000 \<lparr>total_steps = 0, stepper_direction = - 1, pulses = 3,
                                   stallguard = None, polls = 2\<rparr> zero_move 5000 95000 11)
   \<and> LinearAxis_endstop_home env_trip \<lparr>axis = axis_home, reads = 0\<rparr>
     = Some (home_stage 100 1000 \<lparr>total_steps = 0, stepper_direction = - 1, pulses = 1,
                                   stallguard = None, polls = 0\<rparr> zero_move 100 50100 7)
   \<and> velocity_mm_s (axis (home_stage 100 1000 \<lparr>total_steps = 0, stepper_direction = - 1,
         pulses = 3, stallguard = None, polls = 2\<rparr> zero_move 5000 95000 11))
       = velocity_mm_s axis_home
   \<and> acceleration_mm_s2 (axis (home_stage 100 1000 \<lparr>total_steps = 0, stepper_direction = - 1,
         pulses = 3, stallguard = None, polls = 2\<rparr> zero_move 5000 95000 11))
       = acceleration_mm_s2 axis_home
   \<and> velocity_mm_s (axis (home_stage 100 1000 \<lparr>total_steps = 0, stepper_direction = - 1,
         pulses = 1, stallguard = None, polls = 0\<rparr> zero_move 100 50100 7))
       = velocity_mm_s axis_home
   \<and> acceleration_mm_s2 (axis (home_stage 100 1000 \<lparr>total_steps = 0, stepper_direction = - 1,
         pulses = 1, stallguard = None, polls = 0\<rparr> zero_move 100 50100 7))
       = acceleration_mm_s2 axis_home
   \<and> velocity_mm_s (homing_setup axis_home) = 2
   \<and> acceleration_mm_s2 (homing_setup axis_home) = 2
   \<and> total_steps (stepper (homing_setup axis_gantry)) = 0"
proof -
  have k: "kinematics (homing_setup axis_home) = (2, 2, 2, 2)"
    by (simp add: kinematics_def homing_setup_def axis_home_def)
  have a: "axis \<lparr>axis = axis_home, reads = 0\<rparr> = axis_home" by simp
  show ?thesis
    using homing_restores_kinematics [where m = axis_home and e = env_trip
        and s = "\<lparr>axis = axis_home, reads = 0\<rparr>"
        and s' = "home_stage 100 1000 \<lparr>total_steps = 0, stepper_direction = - 1, pulses = 3,
                               stallguard = None, polls = 2\<rparr> zero_move 5000 95000 11"
        and s'' = "home_stage 100 1000 \<lparr>total_steps = 0, stepper_direction = - 1, pulses = 1,
                               stallguard = None, polls = 0\<rparr> zero_move 100 50100 7"]
      homing_restores_kinematics [where m = axis_gantry] home_sensorless home_endstop
    by (simp only: a) (simp add: kinematics_def homing_setup_def axis_home_def)
qed

end
